theory Spec2Isabelle
  imports Complex_Main
begin

section \<open>Numeric model\<close>

text \<open>
  The source computes on NumPy arrays of IEEE doubles. A value is modelled as a finite
  number or one of the three special values that NumPy arithmetic produces instead of
  raising: \<open>inf\<close>, \<open>-inf\<close> and \<open>nan\<close>. There is one zero: the sign of a zero is not
  modelled. Each operation comes twice. The operations \<open>fadd\<close>, \<open>fmul\<close>, \<open>fdiv\<close>,
  \<open>flog\<close> compute on finite numbers exactly, as on the reals: they give the value that
  a double computation follows up to rounding, as long as nothing underflows or overflows.
  The operations \<open>dadd\<close>, \<open>dmul\<close>, \<open>ddiv\<close>, \<open>dlog\<close> of the subsection on double
  arithmetic round every result to the nearest double. Where rounding, underflow or
  overflow decides a property, the property is stated over the rounding operations.
\<close>

datatype npfloat = Fin real | PInf | NInf | NaN

datatype error =
  Exception string | IndexError | ValueError | TypeError | AxisError
  | ZeroDivisionError | UnboundLocalError | RuntimeError

fun is_fin :: "npfloat \<Rightarrow> bool" where
  "is_fin (Fin _) = True"
| "is_fin _ = False"

fun fneg :: "npfloat \<Rightarrow> npfloat" where
  "fneg (Fin a) = Fin (- a)"
| "fneg PInf = NInf"
| "fneg NInf = PInf"
| "fneg NaN = NaN"

fun fabs :: "npfloat \<Rightarrow> npfloat" where
  "fabs (Fin a) = Fin \<bar>a\<bar>"
| "fabs PInf = PInf"
| "fabs NInf = PInf"
| "fabs NaN = NaN"

fun fadd :: "npfloat \<Rightarrow> npfloat \<Rightarrow> npfloat" where
  "fadd (Fin a) (Fin b) = Fin (a + b)"
| "fadd (Fin a) PInf = PInf"
| "fadd (Fin a) NInf = NInf"
| "fadd (Fin a) NaN = NaN"
| "fadd PInf (Fin b) = PInf"
| "fadd PInf PInf = PInf"
| "fadd PInf NInf = NaN"
| "fadd PInf NaN = NaN"
| "fadd NInf (Fin b) = NInf"
| "fadd NInf PInf = NaN"
| "fadd NInf NInf = NInf"
| "fadd NInf NaN = NaN"
| "fadd NaN b = NaN"

definition fsub :: "npfloat \<Rightarrow> npfloat \<Rightarrow> npfloat" where
  "fsub a b = fadd a (fneg b)"

text \<open>The sign of a value, for products and quotients with an infinity.\<close>

fun fmul :: "npfloat \<Rightarrow> npfloat \<Rightarrow> npfloat" where
  "fmul (Fin a) (Fin b) = Fin (a * b)"
| "fmul (Fin a) PInf = (if a = 0 then NaN else if 0 < a then PInf else NInf)"
| "fmul (Fin a) NInf = (if a = 0 then NaN else if 0 < a then NInf else PInf)"
| "fmul (Fin a) NaN = NaN"
| "fmul PInf (Fin b) = (if b = 0 then NaN else if 0 < b then PInf else NInf)"
| "fmul PInf PInf = PInf"
| "fmul PInf NInf = NInf"
| "fmul PInf NaN = NaN"
| "fmul NInf (Fin b) = (if b = 0 then NaN else if 0 < b then NInf else PInf)"
| "fmul NInf PInf = NInf"
| "fmul NInf NInf = PInf"
| "fmul NInf NaN = NaN"
| "fmul NaN b = NaN"

text \<open>
  NumPy's true division: a zero divisor gives \<open>nan\<close> (for \<open>0/0\<close>) or an infinity, with
  a RuntimeWarning and no exception.
\<close>

fun fdiv :: "npfloat \<Rightarrow> npfloat \<Rightarrow> npfloat" where
  "fdiv (Fin a) (Fin b) =
     (if b = 0 then (if a = 0 then NaN else if 0 < a then PInf else NInf)
      else Fin (a / b))"
| "fdiv (Fin a) PInf = Fin 0"
| "fdiv (Fin a) NInf = Fin 0"
| "fdiv (Fin a) NaN = NaN"
| "fdiv PInf (Fin b) = (if 0 \<le> b then PInf else NInf)"
| "fdiv NInf (Fin b) = (if 0 \<le> b then NInf else PInf)"
| "fdiv PInf b = NaN"
| "fdiv NInf b = NaN"
| "fdiv NaN b = NaN"

fun flog :: "npfloat \<Rightarrow> npfloat" where
  "flog (Fin a) = (if 0 < a then Fin (ln a) else if a = 0 then NInf else NaN)"
| "flog PInf = PInf"
| "flog NInf = NaN"
| "flog NaN = NaN"

text \<open>Comparisons: every comparison with \<open>nan\<close> is false.\<close>

fun fle :: "npfloat \<Rightarrow> npfloat \<Rightarrow> bool" where
  "fle (Fin a) (Fin b) = (a \<le> b)"
| "fle NaN b = False"
| "fle a NaN = False"
| "fle NInf b = True"
| "fle a PInf = True"
| "fle a b = False"

definition fge :: "npfloat \<Rightarrow> npfloat \<Rightarrow> bool" where
  "fge a b = fle b a"

definition feq :: "npfloat \<Rightarrow> npfloat \<Rightarrow> bool" where
  "feq a b = (a \<noteq> NaN \<and> a = b)"

definition flt :: "npfloat \<Rightarrow> npfloat \<Rightarrow> bool" where
  "flt a b = (fle a b \<and> \<not> feq a b)"

definition fgt :: "npfloat \<Rightarrow> npfloat \<Rightarrow> bool" where
  "fgt a b = flt b a"

text \<open>\<open>numpy.sum\<close> over a flat sequence; the sum of no element is 0.\<close>

definition fsum :: "npfloat list \<Rightarrow> npfloat" where
  "fsum xs = foldl fadd (Fin 0) xs"

text \<open>\<open>numpy.max\<close> and \<open>numpy.min\<close> of two values: \<open>nan\<close> propagates.\<close>

definition fmax2 :: "npfloat \<Rightarrow> npfloat \<Rightarrow> npfloat" where
  "fmax2 a b = (if a = NaN \<or> b = NaN then NaN else if fle a b then b else a)"

definition fmin2 :: "npfloat \<Rightarrow> npfloat \<Rightarrow> npfloat" where
  "fmin2 a b = (if a = NaN \<or> b = NaN then NaN else if fle a b then a else b)"

text \<open>Reductions of an empty sequence raise ValueError in NumPy.\<close>

fun fmax_list :: "npfloat list \<Rightarrow> error + npfloat" where
  "fmax_list [] = Inl ValueError"
| "fmax_list (x # xs) = Inr (foldl fmax2 x xs)"

fun fmin_list :: "npfloat list \<Rightarrow> error + npfloat" where
  "fmin_list [] = Inl ValueError"
| "fmin_list (x # xs) = Inr (foldl fmin2 x xs)"

text \<open>\<open>_MIN_ = sys.float_info.min\<close>, the smallest positive normal double (\<open>MIN\<close> is taken in HOL).\<close>

definition float_MIN :: real where
  "float_MIN = 1 / 2 ^ 1022"

subsection \<open>Double arithmetic\<close>

text \<open>
  IEEE 754 binary64 with the default rounding, to nearest, ties to even. A double is an
  integer multiple of its unit in the last place, \<open>2 ^ ulp_exp\<close>: the unit is 52 binary
  places below the exponent \<open>\<lfloor>log 2 \<bar>x\<bar>\<rfloor>\<close> of the number, and never below
  \<open>2 ^ -1074\<close> (the subnormal numbers, of magnitude below \<open>2 ^ -1022\<close>, share that unit).
  \<open>nearest_even z\<close> is the integer nearest to \<open>z\<close>, the even one when two are equally
  near; \<open>round_ulp x\<close> is the multiple of the unit of \<open>x\<close> nearest to \<open>x\<close>; \<open>round64 x\<close>
  is the double that an operation of exact result \<open>x\<close> returns: an infinity when the
  rounded magnitude reaches \<open>2 ^ 1024\<close>.
\<close>

definition nearest_even :: "real \<Rightarrow> int" where
  "nearest_even z =
     (let f = \<lfloor>z\<rfloor>; d = z - of_int f
      in if d < 1 / 2 then f else if 1 / 2 < d then f + 1
         else if even f then f else f + 1)"

definition ulp_exp :: "real \<Rightarrow> int" where
  "ulp_exp x = max \<lfloor>log 2 \<bar>x\<bar>\<rfloor> (- 1022) - 52"

definition round_ulp :: "real \<Rightarrow> real" where
  "round_ulp x =
     of_int (nearest_even (x / 2 powr of_int (ulp_exp x))) * 2 powr of_int (ulp_exp x)"

definition round64 :: "real \<Rightarrow> npfloat" where
  "round64 x =
     (if x = 0 then Fin 0
      else if 2 powr 1024 \<le> \<bar>round_ulp x\<bar> then (if 0 < x then PInf else NInf)
      else Fin (round_ulp x))"

text \<open>
  The operations on doubles: the exact result, rounded; with a special value as an
  operand, and for a zero divisor, as the exact operations. \<open>numpy.log\<close> is taken to
  return the double nearest to the logarithm.
\<close>

definition dadd :: "npfloat \<Rightarrow> npfloat \<Rightarrow> npfloat" where
  "dadd a b = (case (a, b) of (Fin x, Fin y) \<Rightarrow> round64 (x + y) | _ \<Rightarrow> fadd a b)"

definition dsub :: "npfloat \<Rightarrow> npfloat \<Rightarrow> npfloat" where
  "dsub a b = dadd a (fneg b)"

definition dmul :: "npfloat \<Rightarrow> npfloat \<Rightarrow> npfloat" where
  "dmul a b = (case (a, b) of (Fin x, Fin y) \<Rightarrow> round64 (x * y) | _ \<Rightarrow> fmul a b)"

definition ddiv :: "npfloat \<Rightarrow> npfloat \<Rightarrow> npfloat" where
  "ddiv a b =
     (case (a, b) of
        (Fin x, Fin y) \<Rightarrow> if y = 0 then fdiv a b else round64 (x / y)
      | _ \<Rightarrow> fdiv a b)"

definition dlog :: "npfloat \<Rightarrow> npfloat" where
  "dlog a = (case a of Fin x \<Rightarrow> if 0 < x then round64 (ln x) else flog a | _ \<Rightarrow> flog a)"

text \<open>\<open>numpy.sum\<close> over a flat sequence of doubles, the additions made from left to right.\<close>

definition dsum :: "npfloat list \<Rightarrow> npfloat" where
  "dsum xs = foldl dadd (Fin 0) xs"

text \<open>A positive normal double: a double of magnitude at least \<open>2 ^ -1022\<close>.\<close>

definition is_pos_normal :: "npfloat \<Rightarrow> bool" where
  "is_pos_normal v = (case v of Fin r \<Rightarrow> 2 powr (- 1022) \<le> r \<and> round64 r = Fin r | _ \<Rightarrow> False)"

section \<open>Arrays\<close>

text \<open>
  An array of dimension 0, 1 or 2. A matrix is the list of its rows; its number of
  columns is the length of its first row, so a matrix without rows has no columns.
  NumPy matrices are rectangular: \<open>rect\<close>.
\<close>

datatype 'a ndarray = A0 'a | A1 "'a list" | A2 "'a list list"

fun ncols :: "'a list list \<Rightarrow> nat" where
  "ncols [] = 0"
| "ncols (r # rs) = length r"

definition rect :: "'a list list \<Rightarrow> bool" where
  "rect rows = list_all (\<lambda>r. length r = ncols rows) rows"

fun wf_nd :: "'a ndarray \<Rightarrow> bool" where
  "wf_nd (A2 rows) = rect rows"
| "wf_nd _ = True"

fun ndim :: "'a ndarray \<Rightarrow> nat" where
  "ndim (A0 _) = 0"
| "ndim (A1 _) = 1"
| "ndim (A2 _) = 2"

fun shape :: "'a ndarray \<Rightarrow> nat list" where
  "shape (A0 _) = []"
| "shape (A1 xs) = [length xs]"
| "shape (A2 rows) = [length rows, ncols rows]"

fun flat :: "'a ndarray \<Rightarrow> 'a list" where
  "flat (A0 x) = [x]"
| "flat (A1 xs) = xs"
| "flat (A2 rows) = concat rows"

fun nd_map :: "('a \<Rightarrow> 'b) \<Rightarrow> 'a ndarray \<Rightarrow> 'b ndarray" where
  "nd_map f (A0 x) = A0 (f x)"
| "nd_map f (A1 xs) = A1 (map f xs)"
| "nd_map f (A2 rows) = A2 (map (map f) rows)"

text \<open>
  An axis as Python and NumPy read it: \<open>-1\<close> is the last axis. The result is the
  position of the axis, or None when the array has no such axis.
\<close>

definition norm_axis :: "nat \<Rightarrow> int \<Rightarrow> nat option" where
  "norm_axis nd axis =
     (if 0 \<le> axis \<and> axis < int nd then Some (nat axis)
      else if - int nd \<le> axis \<and> axis < 0 then Some (nat (int nd + axis))
      else None)"

text \<open>\<open>x.shape[axis]\<close>: indexing the shape tuple, IndexError out of range.\<close>

definition shape_at :: "'a ndarray \<Rightarrow> int \<Rightarrow> error + nat" where
  "shape_at x axis =
     (case norm_axis (ndim x) axis of
        None \<Rightarrow> Inl IndexError
      | Some k \<Rightarrow> Inr (shape x ! k))"

text \<open>The columns of a matrix, and the lines of an array along an axis.\<close>

definition columns :: "'a list list \<Rightarrow> 'a list list" where
  "columns rows = map (\<lambda>j. map (\<lambda>r. r ! j) rows) [0..<ncols rows]"

fun lines_along :: "'a ndarray \<Rightarrow> nat \<Rightarrow> 'a list list" where
  "lines_along (A0 x) k = []"
| "lines_along (A1 xs) k = [xs]"
| "lines_along (A2 rows) k = (if k = 0 then columns rows else rows)"

text \<open>
  A reduction along an axis (\<open>numpy.sum(x, axis=axis)\<close> and the like): one value per
  line, a scalar for a vector; AxisError when the array has no such axis.
\<close>

definition reduce_axis :: "('a list \<Rightarrow> 'b) \<Rightarrow> 'a ndarray \<Rightarrow> int \<Rightarrow> error + 'b ndarray" where
  "reduce_axis f x axis =
     (case norm_axis (ndim x) axis of
        None \<Rightarrow> Inl AxisError
      | Some k \<Rightarrow>
          (case x of
             A0 v \<Rightarrow> Inl AxisError
           | A1 xs \<Rightarrow> Inr (A0 (f xs))
           | A2 rows \<Rightarrow> Inr (A1 (map f (lines_along x k)))))"

text \<open>The sum of a boolean array counts its True entries.\<close>

definition count_true :: "bool list \<Rightarrow> nat" where
  "count_true bs = length (filter (\<lambda>b. b) bs)"

section \<open>score\<close>

text \<open>
  \<^verbatim>\<open>x = np.asarray(x); x = x>=threshold; count = sum(x,axis=axis)\<close>
  \<^verbatim>\<open>s = sum(x,axis=axis)/x.shape[axis]; return s, count\<close>
\<close>

definition score :: "npfloat ndarray \<Rightarrow> npfloat \<Rightarrow> int \<Rightarrow> error + (npfloat ndarray \<times> nat ndarray)" where
  "score x threshold axis =
     (let b = nd_map (\<lambda>v. fge v threshold) x in
      case reduce_axis count_true b axis of
        Inl e \<Rightarrow> Inl e
      | Inr count \<Rightarrow>
          (case shape_at b axis of
             Inl e \<Rightarrow> Inl e
           | Inr n \<Rightarrow> Inr (nd_map (\<lambda>c. fdiv (Fin (real c)) (Fin (real n))) count, count)))"

section \<open>entropy\<close>

text \<open>Sequencing of fallible steps: the first error aborts the call.\<close>

definition ebind :: "error + 'a \<Rightarrow> ('a \<Rightarrow> error + 'b) \<Rightarrow> error + 'b" where
  "ebind m f = (case m of Inl e \<Rightarrow> Inl e | Inr v \<Rightarrow> f v)"

text \<open>
  Modelled from the spec: \<open>linear_scale(x, minval, maxval)\<close> of \<open>maad.util\<close>, the affine
  rescale of \<open>x\<close> into \<open>[minval, maxval]\<close>: the minimum of \<open>x\<close> goes to \<open>minval\<close> and
  its maximum to \<open>maxval\<close>.
\<close>

definition linear_scale :: "npfloat ndarray \<Rightarrow> npfloat \<Rightarrow> npfloat \<Rightarrow> error + npfloat ndarray" where
  "linear_scale x minval maxval =
     ebind (fmax_list (flat x)) (\<lambda>mx.
     ebind (fmin_list (flat x)) (\<lambda>mn.
       let a = fdiv (fsub maxval minval) (fsub mx mn);
           b = fsub maxval (fmul a mx)
       in Inr (nd_map (\<lambda>v. fadd (fmul a v) b) x)))"

text \<open>
  \<^verbatim>\<open>if axis == 0 : pmf = datain/sum(datain,axis)\<close>
  \<^verbatim>\<open>elif axis == 1 : pmf = (datain.transpose()/sum(datain,axis)).transpose()\<close>
  With any other axis \<open>pmf\<close> is never bound and the next statement raises
  UnboundLocalError. Axis 1 is only reached by a matrix.
\<close>

definition pmf_of :: "npfloat ndarray \<Rightarrow> int \<Rightarrow> error + npfloat ndarray" where
  "pmf_of datain axis =
     (if axis = 0 then
        (case datain of
           A0 v \<Rightarrow> Inl AxisError
         | A1 xs \<Rightarrow> Inr (A1 (map (\<lambda>v. fdiv v (fsum xs)) xs))
         | A2 rows \<Rightarrow>
             Inr (A2 (map (\<lambda>r. map2 fdiv r (map fsum (columns rows))) rows)))
      else if axis = 1 then
        (case datain of
           A2 rows \<Rightarrow> Inr (A2 (map (\<lambda>r. map (\<lambda>v. fdiv v (fsum r)) r) rows))
         | _ \<Rightarrow> Inl AxisError)
      else Inl UnboundLocalError)"

text \<open>\<^verbatim>\<open>pmf[pmf==0] = _MIN_\<close>\<close>

definition pmf_fix :: "npfloat \<Rightarrow> npfloat" where
  "pmf_fix p = (if feq p (Fin 0) then Fin float_MIN else p)"

text \<open>
  \<open>entropy(datain, axis)\<close> of an array. The result is None (after a printed warning)
  when \<open>datain.ndim > axis\<close> fails and for an empty axis; \<open>datain.shape[axis]\<close> raises
  IndexError for a negative axis the array does not have; the result is the integer 0
  for an axis of length 1 and for a zero total; otherwise
  \<^verbatim>\<open>H = -sum(pmf*log(pmf),axis)/log(n)\<close>.
\<close>

definition entropy :: "npfloat ndarray \<Rightarrow> int \<Rightarrow> error + npfloat ndarray option" where
  "entropy datain axis =
     (if \<not> axis < int (ndim datain) then Inr None
      else
        ebind (shape_at datain axis) (\<lambda>n0.
          if n0 = 0 then Inr None
          else if n0 = 1 then Inr (Some (A0 (Fin 0)))
          else if feq (fsum (flat datain)) (Fin 0) then Inr (Some (A0 (Fin 0)))
          else
            ebind (fmin_list (flat datain)) (\<lambda>mn.
            ebind (if flt mn (Fin 0) then linear_scale datain (Fin 0) (Fin 1)
                   else Inr datain) (\<lambda>d.
            ebind (shape_at d axis) (\<lambda>n.
            ebind (pmf_of d axis) (\<lambda>pmf0.
              let pmf = nd_map pmf_fix pmf0 in
              ebind (reduce_axis (\<lambda>l. fsum (map (\<lambda>p. fmul p (flog p)) l)) pmf axis) (\<lambda>s.
                Inr (Some (nd_map (\<lambda>h. fdiv (fneg h) (flog (Fin (real n)))) s)))))))))"

text \<open>
  \<open>entropy\<close> in double arithmetic: the same statements, every sum, product, quotient
  and logarithm rounded. \<open>linear_scale\<close> is modelled from the spec, as above.
\<close>

definition linear_scale64 :: "npfloat ndarray \<Rightarrow> npfloat \<Rightarrow> npfloat \<Rightarrow> error + npfloat ndarray" where
  "linear_scale64 x minval maxval =
     ebind (fmax_list (flat x)) (\<lambda>mx.
     ebind (fmin_list (flat x)) (\<lambda>mn.
       let a = ddiv (dsub maxval minval) (dsub mx mn);
           b = dsub maxval (dmul a mx)
       in Inr (nd_map (\<lambda>v. dadd (dmul a v) b) x)))"

definition pmf_of64 :: "npfloat ndarray \<Rightarrow> int \<Rightarrow> error + npfloat ndarray" where
  "pmf_of64 datain axis =
     (if axis = 0 then
        (case datain of
           A0 v \<Rightarrow> Inl AxisError
         | A1 xs \<Rightarrow> Inr (A1 (map (\<lambda>v. ddiv v (dsum xs)) xs))
         | A2 rows \<Rightarrow>
             Inr (A2 (map (\<lambda>r. map2 ddiv r (map dsum (columns rows))) rows)))
      else if axis = 1 then
        (case datain of
           A2 rows \<Rightarrow> Inr (A2 (map (\<lambda>r. map (\<lambda>v. ddiv v (dsum r)) r) rows))
         | _ \<Rightarrow> Inl AxisError)
      else Inl UnboundLocalError)"

definition entropy64 :: "npfloat ndarray \<Rightarrow> int \<Rightarrow> error + npfloat ndarray option" where
  "entropy64 datain axis =
     (if \<not> axis < int (ndim datain) then Inr None
      else
        ebind (shape_at datain axis) (\<lambda>n0.
          if n0 = 0 then Inr None
          else if n0 = 1 then Inr (Some (A0 (Fin 0)))
          else if feq (dsum (flat datain)) (Fin 0) then Inr (Some (A0 (Fin 0)))
          else
            ebind (fmin_list (flat datain)) (\<lambda>mn.
            ebind (if flt mn (Fin 0) then linear_scale64 datain (Fin 0) (Fin 1)
                   else Inr datain) (\<lambda>d.
            ebind (shape_at d axis) (\<lambda>n.
            ebind (pmf_of64 d axis) (\<lambda>pmf0.
              let pmf = nd_map pmf_fix pmf0 in
              ebind (reduce_axis (\<lambda>l. dsum (map (\<lambda>p. dmul p (dlog p)) l)) pmf axis) (\<lambda>s.
                Inr (Some (nd_map (\<lambda>h. ddiv (fneg h) (dlog (Fin (real n)))) s)))))))))"

section \<open>gini\<close>

text \<open>
  \<open>x.sort()\<close> sorts the caller's array in place, in ascending order with \<open>nan\<close> last.
  The array is part of the state: \<open>gini\<close> returns the Gini value together with the
  array as the call leaves it. The model is that of a vector \<open>x\<close>.
\<close>

definition sort_le :: "npfloat \<Rightarrow> npfloat \<Rightarrow> bool" where
  "sort_le a b = (b = NaN \<or> fle a b)"

fun insert_sorted :: "npfloat \<Rightarrow> npfloat list \<Rightarrow> npfloat list" where
  "insert_sorted x [] = [x]"
| "insert_sorted x (y # ys) =
     (if sort_le x y then x # y # ys else y # insert_sorted x ys)"

definition np_sort :: "npfloat list \<Rightarrow> npfloat list" where
  "np_sort xs = foldr insert_sorted xs []"

text \<open>
  \<^verbatim>\<open>if sum(x) == 0: G = 0\<close>
  \<^verbatim>\<open>else: n = len(x); x.sort(); G = sum(x * np.arange(1,n+1,1))\<close>
  \<^verbatim>\<open>      G = 2 * G/sum(x) - (n + 1)\<close>
  \<^verbatim>\<open>      if corr : G = G/(n - 1)\<close>
  \<^verbatim>\<open>      else : G= G/n\<close>
\<close>

definition gini :: "npfloat list \<Rightarrow> bool \<Rightarrow> npfloat \<times> npfloat list" where
  "gini x corr =
     (if feq (fsum x) (Fin 0) then (Fin 0, x)
      else
        let n = length x;
            x' = np_sort x;
            G = fsum (map2 fmul x' (map (\<lambda>i. Fin (real i)) [1..<n + 1]));
            G = fsub (fdiv (fmul (Fin 2) G) (fsum x')) (Fin (real (n + 1)));
            G = (if corr then fdiv G (Fin (real n - 1)) else fdiv G (Fin (real n)))
        in (G, x'))"

section \<open>acousticComplexityIndex\<close>

text \<open>\<open>numpy.diff(x, 1)\<close> along the last axis: the differences of neighbours.\<close>

fun diff :: "npfloat list \<Rightarrow> npfloat list" where
  "diff (x # y # ys) = fsub y x # diff (y # ys)"
| "diff _ = []"

definition nd_diff :: "npfloat ndarray \<Rightarrow> error + npfloat ndarray" where
  "nd_diff x =
     (case x of
        A0 v \<Rightarrow> Inl ValueError
      | A1 xs \<Rightarrow> Inr (A1 (diff xs))
      | A2 rows \<Rightarrow> Inr (A2 (map diff rows)))"

text \<open>
  \<^verbatim>\<open>if norm == 'per_bin':\<close>
  \<^verbatim>\<open>    ACI_xx = ((abs(diff(Sxx,1)).transpose())/(sum(Sxx,1)).transpose()).transpose()\<close>
  \<^verbatim>\<open>elif norm == 'global':\<close>
  \<^verbatim>\<open>    ACI_xx = (abs(diff(Sxx,1))/sum(Sxx))\<close>
  \<^verbatim>\<open>ACI_per_bin = sum(ACI_xx,axis=1); ACI_sum = sum(ACI_per_bin)\<close>
  The argument \<open>norm\<close> is \<open>norm_mode\<close> here (\<open>norm\<close> is a constant of HOL). With
  any other value than these two, \<open>ACI_xx\<close> is never bound. The divisions are NumPy array
  divisions: the source has no guard of its own on the divisor.
\<close>

definition ACI_xx_of :: "npfloat ndarray \<Rightarrow> string \<Rightarrow> error + npfloat ndarray" where
  "ACI_xx_of Sxx norm_mode =
     (if norm_mode = ''per_bin'' then
        ebind (nd_diff Sxx) (\<lambda>d.
        ebind (reduce_axis fsum Sxx 1) (\<lambda>rowsum.
          case (d, rowsum) of
            (A2 drows, A1 ss) \<Rightarrow>
              Inr (A2 (map2 (\<lambda>r t. map (\<lambda>v. fdiv (fabs v) t) r) drows ss))
          | _ \<Rightarrow> Inl ValueError))
      else if norm_mode = ''global'' then
        ebind (nd_diff Sxx) (\<lambda>d.
          Inr (nd_map (\<lambda>v. fdiv (fabs v) (fsum (flat Sxx))) d))
      else Inl UnboundLocalError)"

definition acousticComplexityIndex ::
    "npfloat ndarray \<Rightarrow> string \<Rightarrow> error + (npfloat ndarray \<times> npfloat ndarray \<times> npfloat)" where
  "acousticComplexityIndex Sxx norm_mode =
     ebind (ACI_xx_of Sxx norm_mode) (\<lambda>ACI_xx.
     ebind (reduce_axis fsum ACI_xx 1) (\<lambda>ACI_per_bin.
       Inr (ACI_xx, ACI_per_bin, fsum (flat ACI_per_bin))))"

section \<open>acoustic_events\<close>

text \<open>Python's \<open>round\<close> of a float: to the nearest integer, a tie to the even one.\<close>

definition py_round :: "real \<Rightarrow> int" where
  "py_round x =
     (let f = \<lfloor>x\<rfloor>; d = x - of_int f
      in if d < 1 / 2 then f else if 1 / 2 < d then f + 1
         else if even f then f else f + 1)"

text \<open>
  \<open>scipy.ndimage.binary_erosion\<close> and \<open>binary_dilation\<close> of a line with a structuring
  element of \<open>k\<close> ones, centred at \<open>k // 2\<close>; outside the line the input counts as
  False. Dilation uses the mirrored element, so that both together are an opening.
\<close>

definition get_b :: "bool list \<Rightarrow> int \<Rightarrow> bool" where
  "get_b xs i = (0 \<le> i \<and> i < int (length xs) \<and> xs ! nat i)"

definition offsets :: "nat \<Rightarrow> int list" where
  "offsets k = map (\<lambda>j. int j - int (k div 2)) [0..<k]"

definition binary_erosion :: "bool list \<Rightarrow> nat \<Rightarrow> bool list" where
  "binary_erosion xs k =
     map (\<lambda>i. list_all (\<lambda>d. get_b xs (int i + d)) (offsets k)) [0..<length xs]"

definition binary_dilation :: "bool list \<Rightarrow> nat \<Rightarrow> bool list" where
  "binary_dilation xs k =
     map (\<lambda>i. list_ex (\<lambda>d. get_b xs (int i - d)) (offsets k)) [0..<length xs]"

text \<open>
  Modelled from the spec: \<open>rle(binary_vector)\<close> of \<open>maad.util\<close>, the run-length
  encoding that returns two parallel arrays, the lengths of the runs and their values.
\<close>

fun rle_runs :: "bool list \<Rightarrow> (nat \<times> bool) list" where
  "rle_runs [] = []"
| "rle_runs (x # xs) =
     (case rle_runs xs of
        [] \<Rightarrow> [(1, x)]
      | (n, y) # rs \<Rightarrow> if x = y then (Suc n, y) # rs else (1, x) # (n, y) # rs)"

definition rle :: "bool list \<Rightarrow> nat list \<times> bool list" where
  "rle xs = (map fst (rle_runs xs), map snd (rle_runs xs))"

text \<open>
  The three values of one line \<open>b\<close>:
  \<^verbatim>\<open>l, v = rle(b)\<close>
  \<^verbatim>\<open>if sum(l[v==1])!=0 : EVNmean = mean(l[v==1]) * dt\<close>
  \<^verbatim>\<open>else: EVNmean = 0\<close>
  \<^verbatim>\<open>EVNsum = sum(l[v==1]) * dt; EVNcount = sum(v) / duration\<close>
\<close>

definition events_of_line :: "bool list \<Rightarrow> real \<Rightarrow> npfloat \<Rightarrow> npfloat \<times> npfloat \<times> npfloat" where
  "events_of_line b dt duration =
     (let (l, v) = rle b;
          l1 = map fst (filter snd (zip l v));
          EVNmean = (if sum_list l1 \<noteq> 0
                     then fmul (fdiv (Fin (real (sum_list l1))) (Fin (real (length l1)))) (Fin dt)
                     else Fin 0);
          EVNsum = Fin (real (sum_list l1) * dt);
          EVNcount = fdiv (Fin (real (count_true v))) duration
      in (EVNsum, EVNmean, EVNcount))"

text \<open>
  \<open>acoustic_events(xdB, dt, dB_threshold, rejectDuration)\<close> returns
  \<open>(EVNsum, EVNmean, EVNcount, EVN)\<close>: scalars for a vector, one value per row for a
  matrix. \<open>rejectDuration / dt\<close> is a division of Python floats, which raises on a zero
  \<open>dt\<close>; \<open>np.ones\<close> refuses a negative length and the morphology an empty structuring
  element. For a matrix the kernel is one row of ones: each row is opened on its own.
  An array of dimension 0 binds neither \<open>duration\<close> nor the results.
\<close>

definition acoustic_events ::
    "npfloat ndarray \<Rightarrow> real \<Rightarrow> npfloat \<Rightarrow> real option
       \<Rightarrow> error + (npfloat ndarray \<times> npfloat ndarray \<times> npfloat ndarray \<times> bool ndarray)" where
  "acoustic_events xdB dt dB_threshold rejectDuration =
     (let duration = Fin ((real (last (shape xdB)) - 1) * dt);
          EVN = nd_map (\<lambda>v. fge v dB_threshold) xdB
      in
      ebind (case rejectDuration of
               None \<Rightarrow> Inr EVN
             | Some rd \<Rightarrow>
                 if dt = 0 then Inl ZeroDivisionError
                 else
                   let rejectLength = py_round (rd / dt) in
                   (case EVN of
                      A0 v \<Rightarrow> Inl UnboundLocalError
                    | _ \<Rightarrow>
                      if rejectLength + 1 < 0 then Inl ValueError
                      else if rejectLength + 1 = 0 then Inl RuntimeError
                      else
                        let k = nat (rejectLength + 1) in
                        (case EVN of
                           A1 b \<Rightarrow> Inr (A1 (binary_dilation (binary_erosion b k) k))
                         | A2 rows \<Rightarrow>
                             Inr (A2 (map (\<lambda>b. binary_dilation (binary_erosion b k) k) rows))
                         | A0 v \<Rightarrow> Inl UnboundLocalError))) (\<lambda>EVN.
        case EVN of
          A0 v \<Rightarrow> Inl UnboundLocalError
        | A1 b \<Rightarrow>
            (case events_of_line b dt duration of
               (EVNsum, EVNmean, EVNcount) \<Rightarrow> Inr (A0 EVNsum, A0 EVNmean, A0 EVNcount, EVN))
        | A2 rows \<Rightarrow>
            (let rs = map (\<lambda>b. events_of_line b dt duration) rows
             in Inr (A1 (map fst rs), A1 (map (\<lambda>r. fst (snd r)) rs),
                     A1 (map (\<lambda>r. snd (snd r)) rs), EVN))))"

section \<open>intoBins\<close>

text \<open>
  \<open>numpy.arange(start, stop, step)\<close> on exact reals: \<open>ceil((stop - start) / step)\<close>
  values \<open>start + i * step\<close>, none when that number is not positive; a zero step
  raises.
\<close>

definition arange :: "real \<Rightarrow> real \<Rightarrow> real \<Rightarrow> error + real list" where
  "arange start stop step =
     (if step = 0 then Inl ZeroDivisionError
      else Inr (map (\<lambda>i. start + real i * step) [0..<nat \<lceil>(stop - start) / step\<rceil>]))"

text \<open>\<open>numpy.mean\<close> of a sequence: \<open>nan\<close> for an empty one (with a warning).\<close>

definition mean_list :: "npfloat list \<Rightarrow> npfloat" where
  "mean_list xs = fdiv (fsum xs) (Fin (real (length xs)))"

text \<open>Indexing with a boolean mask of the same length: the entries at True.\<close>

definition select :: "bool list \<Rightarrow> 'a list \<Rightarrow> 'a list" where
  "select bs xs = map snd (filter fst (zip bs xs))"

text \<open>
  One turn of the loop, for the bin \<open>[b0, b)\<close>:
  \<^verbatim>\<open>indices = (an>=b0)*(an<b)\<close>
  \<^verbatim>\<open>if axis==0: xbin.append(mean(x[indices,:],axis=axis))\<close>
  \<^verbatim>\<open>elif axis==1: xbin.append(mean(x[:,indices],axis=axis))\<close>
  \<open>x[indices,:]\<close> and \<open>x[:,indices]\<close> index two dimensions: on a vector (or a scalar) they
  raise IndexError, and so does a mask whose length is not that of the indexed axis.
  With another axis nothing is appended.
\<close>

definition bin_mean ::
    "npfloat ndarray \<Rightarrow> real list \<Rightarrow> int \<Rightarrow> real \<times> real \<Rightarrow> error + npfloat list option" where
  "bin_mean x an axis bb =
     (let indices = map (\<lambda>a. fst bb \<le> a \<and> a < snd bb) an in
      if axis = 0 then
        (case x of
           A2 rows \<Rightarrow>
             if length rows \<noteq> length an then Inl IndexError
             else Inr (Some (map (\<lambda>j. mean_list (map (\<lambda>r. r ! j) (select indices rows)))
                               [0..<ncols rows]))
         | _ \<Rightarrow> Inl IndexError)
      else if axis = 1 then
        (case x of
           A2 rows \<Rightarrow>
             if ncols rows \<noteq> length an then Inl IndexError
             else Inr (Some (map (\<lambda>r. mean_list (select indices r)) rows))
         | _ \<Rightarrow> Inl IndexError)
      else Inr None)"

text \<open>The loop over the bins: the first error aborts it.\<close>

fun bin_loop ::
    "npfloat ndarray \<Rightarrow> real list \<Rightarrow> int \<Rightarrow> (real \<times> real) list \<Rightarrow> error + npfloat list list" where
  "bin_loop x an axis [] = Inr []"
| "bin_loop x an axis (bb # bbs) =
     ebind (bin_mean x an axis bb) (\<lambda>v.
     ebind (bin_loop x an axis bbs) (\<lambda>vs.
       Inr (case v of None \<Rightarrow> vs | Some r \<Rightarrow> r # vs)))"

text \<open>
  \<open>intoBins(x, an, bin_step, axis, bin_min, bin_max)\<close> returns \<open>(xbin, bins)\<close>.
  \<^verbatim>\<open>if bin_step < (an[1]-an[0]): raise Exception('WARNING: bin step must be ...')\<close>
  is the error the spec calls InvalidArgument. \<open>s\<close> holds the number of positions of
  each bin; \<^verbatim>\<open>xbin = np.asarray(xbin) * mean(s)\<close>; \<^verbatim>\<open>bins = bins[0:-1]\<close>.
  The positions \<open>an\<close> are finite numbers.
\<close>

definition intoBins ::
    "npfloat ndarray \<Rightarrow> real list \<Rightarrow> real \<Rightarrow> int \<Rightarrow> real option \<Rightarrow> real option
       \<Rightarrow> error + (npfloat ndarray \<times> real list)" where
  "intoBins x an bin_step axis bin_min bin_max =
     (if length an < 2 then Inl IndexError
      else if bin_step < an ! 1 - an ! 0 then
        Inl (Exception ''WARNING: bin step must be larger or equal than the actual resolution of x'')
      else
        let bmin = (case bin_min of None \<Rightarrow> an ! 0 | Some b \<Rightarrow> b);
            bmax = (case bin_max of None \<Rightarrow> last an | Some b \<Rightarrow> b)
        in
        ebind (arange bmin (bmax + bin_step) bin_step) (\<lambda>bins.
          if bins = [] then Inl IndexError
          else
            let pairs = zip bins (tl bins);
                s = map (\<lambda>bb. count_true (map (\<lambda>a. fst bb \<le> a \<and> a < snd bb) an)) pairs
            in
            ebind (bin_loop x an axis pairs) (\<lambda>xbin.
              let ms = fdiv (Fin (real (sum_list s))) (Fin (real (length s)))
              in Inr (if xbin = [] then A1 [] else A2 (map (map (\<lambda>v. fmul v ms)) xbin),
                      butlast bins))))"

section \<open>soundscapeIndex\<close>

text \<open>
  Modelled from the spec: \<open>index_bw(positions, (lo, hi))\<close> of \<open>maad.util\<close>, the boolean
  selector of the positions within \<open>[lo, hi]\<close>.
\<close>

definition index_bw :: "real list \<Rightarrow> real \<times> real \<Rightarrow> bool list" where
  "index_bw fn flim = map (\<lambda>f. fst flim \<le> f \<and> f \<le> snd flim) fn"

text \<open>
  \<^verbatim>\<open>PSDxx_bins, bins = intoBins(PSDxx, fn, bin_min=0, bin_max=fn[-1], bin_step=bin_step, axis=0)\<close>
  \<^verbatim>\<open>indf = index_bw (bins, flim); energy = sum(PSDxx_bins[indf, ])\<close>
\<close>

definition energy_per_freqbin ::
    "npfloat ndarray \<Rightarrow> real list \<Rightarrow> real \<times> real \<Rightarrow> real \<Rightarrow> error + npfloat" where
  "energy_per_freqbin PSDxx fn flim bin_step =
     (if fn = [] then Inl IndexError
      else
        ebind (intoBins PSDxx fn bin_step 0 (Some 0) (Some (last fn))) (\<lambda>(PSDxx_bins, bins).
          let indf = index_bw bins flim in
          (case PSDxx_bins of
             A2 rows \<Rightarrow> Inr (fsum (concat (select indf rows)))
           | A1 xs \<Rightarrow> Inr (fsum (select indf xs))
           | A0 v \<Rightarrow> Inl IndexError)))"

text \<open>
  \<open>soundscapeIndex(Sxx, fn, flim_bioPh, flim_antroPh, step)\<close> returns
  \<open>(NDSI, ratioBA, antroPh, bioPh)\<close>.
  \<^verbatim>\<open>if step is None : step = fn[1]-fn[0]\<close>
  \<^verbatim>\<open>PSDxx = Sxx**2\<close>
  \<^verbatim>\<open>NDSI = (bioPh-antroPh)/(bioPh+antroPh); ratioBA = bioPh / antroPh\<close>
\<close>

definition soundscapeIndex ::
    "npfloat ndarray \<Rightarrow> real list \<Rightarrow> real \<times> real \<Rightarrow> real \<times> real \<Rightarrow> real option
       \<Rightarrow> error + (npfloat \<times> npfloat \<times> npfloat \<times> npfloat)" where
  "soundscapeIndex Sxx fn flim_bioPh flim_antroPh step =
     ebind (case step of
              None \<Rightarrow> if length fn < 2 then Inl IndexError else Inr (fn ! 1 - fn ! 0)
            | Some st \<Rightarrow> Inr st) (\<lambda>st.
       let PSDxx = nd_map (\<lambda>v. fmul v v) Sxx in
       ebind (energy_per_freqbin PSDxx fn flim_bioPh st) (\<lambda>bioPh.
       ebind (energy_per_freqbin PSDxx fn flim_antroPh st) (\<lambda>antroPh.
         Inr (fdiv (fsub bioPh antroPh) (fadd bioPh antroPh),
              fdiv bioPh antroPh, antroPh, bioPh))))"

section \<open>skewness, kurtosis and spectral_entropy\<close>

fun fsqrt :: "npfloat \<Rightarrow> npfloat" where
  "fsqrt (Fin a) = (if 0 \<le> a then Fin (sqrt a) else NaN)"
| "fsqrt PInf = PInf"
| "fsqrt NInf = NaN"
| "fsqrt NaN = NaN"

text \<open>\<open>numpy.var\<close> and \<open>numpy.std\<close> of a sequence: the mean of the squared deviations.\<close>

definition var_list :: "npfloat list \<Rightarrow> npfloat" where
  "var_list xs =
     (let m = mean_list xs
      in mean_list (map (\<lambda>v. fmul (fabs (fsub v m)) (fabs (fsub v m))) xs))"

definition std_list :: "npfloat list \<Rightarrow> npfloat" where
  "std_list xs = fsqrt (var_list xs)"

text \<open>
  \<open>skewness(x)\<close> and \<open>kurtosis(x)\<close> with the default \<open>axis=0\<close>:
  \<^verbatim>\<open>Nf = x.shape[axis]; mean_x = mean(x, axis=axis); std_x = np.std(x, axis=axis)\<close>
  \<^verbatim>\<open>z = x - mean_x; sk = (sum(z**3)/(Nf-1))/std_x**3\<close>
  (\<open>z**4\<close> and \<open>std_x**4\<close> for the kurtosis). The sum is over all the entries. An
  argument that is not an array gives None.
\<close>

definition moment_ratio :: "nat \<Rightarrow> npfloat ndarray \<Rightarrow> npfloat ndarray option" where
  "moment_ratio p x =
     (let pw = (\<lambda>v. foldr fmul (replicate (p - 1) v) v) in
      case x of
        A0 v \<Rightarrow> None
      | A1 xs \<Rightarrow>
          (let z = map (\<lambda>v. fsub v (mean_list xs)) xs
           in Some (A0 (fdiv (fdiv (fsum (map pw z)) (Fin (real (length xs) - 1)))
                             (pw (std_list xs)))))
      | A2 rows \<Rightarrow>
          (let ms = map mean_list (columns rows);
               z = map (\<lambda>r. map2 fsub r ms) rows;
               t = fdiv (fsum (map pw (concat z))) (Fin (real (length rows) - 1))
           in Some (A1 (map (\<lambda>c. fdiv t (pw (std_list c))) (columns rows)))))"

definition skewness :: "npfloat ndarray \<Rightarrow> npfloat ndarray option" where
  "skewness x = moment_ratio 3 x"

definition kurtosis :: "npfloat ndarray \<Rightarrow> npfloat ndarray option" where
  "kurtosis x = moment_ratio 4 x"

text \<open>
  The argument \<open>flim\<close> of \<open>spectral_entropy\<close>: None, a number, or a tuple
  \<open>(fmin, fmax)\<close>.
\<close>

datatype flim_arg = FlimNone | FlimNumber real | FlimTuple real real

text \<open>\<open>fn.min()\<close> and \<open>fn.max()\<close>: ValueError on an empty array.\<close>

fun list_min :: "real list \<Rightarrow> error + real" where
  "list_min [] = Inl ValueError"
| "list_min (x # xs) = Inr (fold min xs x)"

fun list_max :: "real list \<Rightarrow> error + real" where
  "list_max [] = Inl ValueError"
| "list_max (x # xs) = Inr (fold max xs x)"

text \<open>
  \<open>X[iBAND]\<close>: the entries (the rows of a matrix) at the True positions of a mask,
  whose length must be that of the first axis.
\<close>

definition mask_rows :: "bool list \<Rightarrow> npfloat ndarray \<Rightarrow> error + npfloat ndarray" where
  "mask_rows bs X =
     (case X of
        A0 v \<Rightarrow> Inl IndexError
      | A1 xs \<Rightarrow> if length xs \<noteq> length bs then Inl IndexError else Inr (A1 (select bs xs))
      | A2 rows \<Rightarrow>
          if length rows \<noteq> length bs then Inl IndexError else Inr (A2 (select bs rows)))"

text \<open>A fallible function over a list: the first error aborts.\<close>

fun emap :: "('a \<Rightarrow> error + 'b) \<Rightarrow> 'a list \<Rightarrow> error + 'b list" where
  "emap f [] = Inr []"
| "emap f (x # xs) = ebind (f x) (\<lambda>y. ebind (emap f xs) (\<lambda>ys. Inr (y # ys)))"

text \<open>\<open>max(X[iBAND], axis=1)\<close>: the maximum of each row; an empty row raises.\<close>

definition max_axis1 :: "npfloat ndarray \<Rightarrow> error + npfloat list" where
  "max_axis1 X = (case X of A2 rows \<Rightarrow> emap fmax_list rows | _ \<Rightarrow> Inl AxisError)"

text \<open>
  \<open>numpy.argmax\<close> of a sequence: the first position of the maximum (of the first
  \<open>nan\<close>, when there is one); ValueError on an empty sequence.
\<close>

definition argmax_list :: "npfloat list \<Rightarrow> error + nat" where
  "argmax_list xs =
     ebind (fmax_list xs) (\<lambda>m. Inr (length (takeWhile (\<lambda>v. v \<noteq> m) xs)))"

text \<open>\<open>np.argmax(iBAND==True)\<close>: the first True position, 0 when there is none.\<close>

definition first_true :: "bool list \<Rightarrow> error + nat" where
  "first_true bs =
     (if bs = [] then Inl ValueError
      else if list_ex (\<lambda>b. b) bs then Inr (length (takeWhile (\<lambda>b. \<not> b) bs)) else Inr 0)"

text \<open>\<open>fn[i]\<close> for a position \<open>i \<ge> 0\<close>: IndexError out of range.\<close>

definition take_at :: "real list \<Rightarrow> nat \<Rightarrow> error + real" where
  "take_at xs i = (if i < length xs then Inr (xs ! i) else Inl IndexError)"

text \<open>\<open>1 - Hf\<close>: a TypeError when \<open>entropy\<close> returned None.\<close>

definition one_minus :: "npfloat ndarray option \<Rightarrow> error + npfloat ndarray" where
  "one_minus H = (case H of None \<Rightarrow> Inl TypeError | Some h \<Rightarrow> Inr (nd_map (fsub (Fin 1)) h))"

text \<open>
  \<open>numpy.histogram(a, bins=n, range=(lo, hi))\<close> on exact reals: \<open>n\<close> bins of equal
  width over \<open>[lo, hi]\<close>, the last one closed; values outside the range are ignored; a
  range of width 0 is widened by 1/2 on both sides. It raises ValueError when \<open>n\<close> is
  not positive or \<open>hi < lo\<close>.
\<close>

definition histogram :: "real list \<Rightarrow> nat \<Rightarrow> real \<times> real \<Rightarrow> error + nat list" where
  "histogram a n rng =
     (if n = 0 then Inl ValueError
      else if snd rng < fst rng then Inl ValueError
      else
        let lo = (if fst rng = snd rng then fst rng - 1 / 2 else fst rng);
            hi = (if fst rng = snd rng then snd rng + 1 / 2 else snd rng);
            idx = (\<lambda>v. if v = hi then n - 1 else nat \<lfloor>(v - lo) / (hi - lo) * real n\<rfloor>)
        in Inr (map (\<lambda>b. length (filter (\<lambda>v. lo \<le> v \<and> v \<le> hi \<and> idx v = b) a)) [0..<n]))"

text \<open>
  \<open>spectral_entropy(X, fn, flim)\<close> returns \<open>(EAS, ECU, ECV, EPS, KURT, SKEW)\<close>, or None
  after a printed warning when \<open>flim\<close> is a number:
  \<^verbatim>\<open>if isinstance(flim, numbers.Number) :\<close>
  \<^verbatim>\<open>    print ("WARNING: flim must be a tupple (fmin, fmax) or None")\<close>
  \<^verbatim>\<open>    return\<close>
  \<^verbatim>\<open>if flim is None : flim=(fn.min(),fn.max())\<close>
\<close>

definition spectral_entropy ::
    "npfloat ndarray \<Rightarrow> real list \<Rightarrow> flim_arg
       \<Rightarrow> error + (npfloat ndarray \<times> npfloat ndarray \<times> npfloat ndarray \<times> npfloat ndarray
                    \<times> npfloat ndarray option \<times> npfloat ndarray option) option" where
  "spectral_entropy X fn flim =
     (case flim of
        FlimNumber c \<Rightarrow> Inr None
      | _ \<Rightarrow>
        ebind (case flim of
                 FlimTuple lo hi \<Rightarrow> Inr (lo, hi)
               | _ \<Rightarrow> ebind (list_min fn) (\<lambda>lo. ebind (list_max fn) (\<lambda>hi. Inr (lo, hi)))) (\<lambda>flim.
        let iBAND = index_bw fn flim in
        ebind (mask_rows iBAND X) (\<lambda>XB.
        ebind (reduce_axis mean_list XB 1) (\<lambda>X_mean.
        ebind (entropy X_mean 0) (\<lambda>Hf.
        ebind (one_minus Hf) (\<lambda>EAS.
        ebind (reduce_axis var_list XB 1) (\<lambda>X_Var.
        ebind (entropy X_Var 0) (\<lambda>Hf_var.
        ebind (one_minus Hf_var) (\<lambda>ECU.
        ebind (max_axis1 XB) (\<lambda>mx.
        let X_CoV = A1 (map2 fdiv (flat X_Var) mx) in
        ebind (entropy X_CoV 0) (\<lambda>Hf_CoV.
        ebind (one_minus Hf_CoV) (\<lambda>ECV.
        ebind (first_true iBAND) (\<lambda>ioffset.
        let Nbins = count_true iBAND in
        ebind (emap argmax_list (lines_along XB 0)) (\<lambda>am.
        ebind (emap (\<lambda>i. take_at fn (i + ioffset)) am) (\<lambda>imax_X.
        ebind (histogram imax_X Nbins flim) (\<lambda>h.
        let max_X_bin = A1 (map (\<lambda>c. fdiv (Fin (real c)) (Fin (real (sum_list h)))) h) in
        ebind (entropy max_X_bin 0) (\<lambda>Hf_fmax.
        ebind (one_minus Hf_fmax) (\<lambda>EPS.
          Inr (Some (EAS, ECU, ECV, EPS, kurtosis max_X_bin, skewness max_X_bin))))))))))))))))))))"

text \<open>The number of elements of a line that are at or above a threshold.\<close>

definition count_ge :: "npfloat \<Rightarrow> npfloat list \<Rightarrow> nat" where
  "count_ge t l = length (filter (\<lambda>v. fge v t) l)"

text \<open>A strictly positive finite number: a nonnegative value that is not zero.\<close>

definition is_pos :: "npfloat \<Rightarrow> bool" where
  "is_pos v = (case v of Fin r \<Rightarrow> 0 < r | _ \<Rightarrow> False)"

section \<open>Bins and bands of soundscapeIndex\<close>

text \<open>
  Names for what the loop of \<open>intoBins\<close> and the selection of \<open>_energy_per_freqbin\<close>
  compute, used to state which rows of a spectrogram count for a band. A position \<open>a\<close> is
  in the bin \<open>bb = (b0, b)\<close> when \<open>b0 \<le> a < b\<close>; a bin is in the band \<open>flim\<close> when its
  lower edge is within \<open>[fmin, fmax]\<close>; \<open>bin_pairs fn st\<close> are the bins that
  \<open>_energy_per_freqbin\<close> builds for the step \<open>st\<close>, from 0 to the last frequency;
  \<open>band_rows\<close> are the rows whose frequency is in a bin of the band; \<open>bin_row\<close> is the
  row of \<open>xbin\<close> of one bin and \<open>occupancy\<close> is \<open>mean(s)\<close>.
\<close>

definition in_bin :: "real \<times> real \<Rightarrow> real \<Rightarrow> bool" where
  "in_bin bb a = (fst bb \<le> a \<and> a < snd bb)"

definition in_band :: "real \<times> real \<Rightarrow> real \<times> real \<Rightarrow> bool" where
  "in_band flim bb = (fst flim \<le> fst bb \<and> fst bb \<le> snd flim)"

definition bin_pairs :: "real list \<Rightarrow> real \<Rightarrow> (real \<times> real) list" where
  "bin_pairs fn st =
     (case arange 0 (last fn + st) st of Inl e \<Rightarrow> [] | Inr bins \<Rightarrow> zip bins (tl bins))"

definition band_rows :: "real list \<Rightarrow> real \<Rightarrow> real \<times> real \<Rightarrow> nat list" where
  "band_rows fn st flim =
     filter (\<lambda>i. list_ex (\<lambda>bb. in_band flim bb \<and> in_bin bb (fn ! i)) (bin_pairs fn st))
       [0..<length fn]"

definition is_nonneg :: "npfloat \<Rightarrow> bool" where
  "is_nonneg v = (case v of Fin r \<Rightarrow> 0 \<le> r | _ \<Rightarrow> False)"

definition bin_row :: "npfloat list list \<Rightarrow> real list \<Rightarrow> npfloat \<Rightarrow> real \<times> real \<Rightarrow> npfloat list" where
  "bin_row rows an ms bb =
     map (\<lambda>j. fmul (mean_list (map (\<lambda>r. r ! j) (select (map (in_bin bb) an) rows))) ms)
       [0..<ncols rows]"

definition occupancy :: "real list \<Rightarrow> (real \<times> real) list \<Rightarrow> npfloat" where
  "occupancy an pairs =
     fdiv (Fin (real (sum_list (map (\<lambda>bb. count_true (map (in_bin bb) an)) pairs))))
          (Fin (real (length pairs)))"


section \<open>Properties of the array model\<close>


lemma ncols_map: "ncols (map (map f) rows) = ncols rows"
  by (cases rows) simp_all


lemma columns_map: "rect rows \<Longrightarrow> columns (map (map f) rows) = map (map f) (columns rows)"
  by (auto simp: columns_def ncols_map rect_def list_all_iff)

lemma count_true_map: "count_true (map (\<lambda>v. fge v t) l) = count_ge t l"
  by (simp add: count_true_def count_ge_def filter_map o_def)

lemma count_ge_le: "count_ge t l \<le> length l"
  by (simp add: count_ge_def)

lemma line_length:
  "wf_nd x \<Longrightarrow> norm_axis (ndim x) axis = Some k \<Longrightarrow> l \<in> set (lines_along x k) \<Longrightarrow> length l = shape x ! k"
  apply (cases x)
    apply (auto simp: norm_axis_def columns_def rect_def list_all_iff split: if_splits)
  done

lemma line_elems:
  "wf_nd x \<Longrightarrow> l \<in> set (lines_along x k) \<Longrightarrow> set l \<subseteq> set (flat x)"
  apply (cases x)
    apply (auto simp: columns_def rect_def list_all_iff split: if_splits)
  apply (metis nth_mem)
  done

lemma foldl_fmax2_fin:
  "list_all is_fin xs \<Longrightarrow> \<exists>r. foldl fmax2 (Fin a) xs = Fin r \<and> a \<le> r \<and> (\<forall>v\<in>set xs. \<exists>b. v = Fin b \<and> b \<le> r)"
proof (induction xs arbitrary: a)
  case Nil then show ?case by simp
next
  case (Cons x xs)
  then obtain b where b: "x = Fin b" by (cases x) auto
  have "fmax2 (Fin a) (Fin b) = Fin (max a b)" by (simp add: fmax2_def max_def)
  with Cons b show ?case by fastforce
qed

lemma fmax_list_fin:
  "list_all is_fin xs \<Longrightarrow> fmax_list xs = Inr m \<Longrightarrow> \<exists>r. m = Fin r \<and> (\<forall>v\<in>set xs. \<exists>b. v = Fin b \<and> b \<le> r)"
  apply (cases xs; simp)
  subgoal for x ys
    apply (cases x; simp)
    using foldl_fmax2_fin by fastforce
  done

lemma count_ge_zero: "(\<forall>v\<in>set l. \<not> fge v t) \<Longrightarrow> count_ge t l = 0"
  by (simp add: count_ge_def)

lemma norm_axis_lt: "norm_axis nd axis = Some k \<Longrightarrow> k < nd"
  by (auto simp: norm_axis_def split: if_splits)

lemma score_eq:
  assumes "wf_nd x" "norm_axis (ndim x) axis = Some k"
  shows "\<exists>s count. score x t axis = Inr (s, count) \<and>
          flat count = map (count_ge t) (lines_along x k) \<and>
          flat s = map (\<lambda>l. fdiv (Fin (real (count_ge t l))) (Fin (real (shape x ! k)))) (lines_along x k)"
proof (cases x)
  case (A0 v)
  with assms(2) show ?thesis by (auto dest: norm_axis_lt)
next
  case (A1 xs)
  with assms show ?thesis
    by (simp add: score_def reduce_axis_def shape_at_def Let_def count_true_map del: fdiv.simps)
next
  case (A2 rows)
  with assms show ?thesis
    by (simp add: score_def reduce_axis_def shape_at_def Let_def ncols_map columns_map
      count_true_map o_def del: fdiv.simps)
qed

lemma fdiv_frac: "0 < n \<Longrightarrow> c \<le> n \<Longrightarrow> fdiv (Fin (real c)) (Fin (real n)) = Fin (real c / real n)"
  by simp

subsection \<open>Lemmas on the rounding of doubles\<close>

lemma nearest_even_int: "nearest_even (of_int n) = n"
  by (simp add: nearest_even_def)

lemma nearest_even_le: "x \<le> of_int k \<Longrightarrow> nearest_even x \<le> k"
proof -
  assume a: "x \<le> of_int k"
  have f: "\<lfloor>x\<rfloor> \<le> k" using a by linarith
  show ?thesis
  proof (cases "\<lfloor>x\<rfloor> = k")
    case True
    then have "x = of_int k" using a by linarith
    then show ?thesis by (simp add: nearest_even_int)
  next
    case False
    then have "\<lfloor>x\<rfloor> + 1 \<le> k" using f by linarith
    then show ?thesis unfolding nearest_even_def Let_def by auto
  qed
qed

lemma nearest_even_ge: "of_int k \<le> x \<Longrightarrow> k \<le> nearest_even x"
proof -
  assume a: "of_int k \<le> x"
  have f: "k \<le> \<lfloor>x\<rfloor>" using a by (simp add: le_floor_iff)
  then show ?thesis unfolding nearest_even_def Let_def by auto
qed

lemma ulp_exp_eq:
  assumes "2 powr (of_int e) \<le> \<bar>x\<bar>" and "\<bar>x\<bar> < 2 powr (of_int e + 1)"
  shows "ulp_exp x = max e (- 1022) - 52"
proof -
  have "0 < \<bar>x\<bar>" using assms(1) by (rule less_le_trans[rotated]) simp
  then have "\<lfloor>log 2 \<bar>x\<bar>\<rfloor> = e" using assms by (simp add: floor_log_eq_powr_iff)
  then show ?thesis by (simp add: ulp_exp_def)
qed

lemma of_int_less_pow2: "(k::int) < 2 ^ m \<Longrightarrow> real_of_int k < 2 ^ m"
proof -
  assume "k < 2 ^ m"
  then have "real_of_int k < real_of_int (2 ^ m)" by (simp only: of_int_less_iff)
  then show ?thesis by simp
qed

text \<open>An integer below 2^53 in magnitude is a double.\<close>

lemma round_ulp_int:
  assumes "\<bar>n\<bar> < 2 ^ 53"
  shows "round_ulp (of_int n) = of_int n"
proof (cases "n = 0")
  case True then show ?thesis by (simp add: round_ulp_def nearest_even_def)
next
  case False
  define x :: real where "x = of_int n"
  define e where "e = \<lfloor>log 2 \<bar>x\<bar>\<rfloor>"
  have ax: "\<bar>x\<bar> = of_int \<bar>n\<bar>" unfolding x_def by simp
  have "1 \<le> \<bar>n\<bar>" using False by linarith
  then have x1: "1 \<le> \<bar>x\<bar>" unfolding ax by linarith
  have x2: "\<bar>x\<bar> < 2 ^ 53" unfolding ax using assms by (rule of_int_less_pow2)
  have e0: "0 \<le> e" unfolding e_def using x1 by (simp add: le_floor_iff)
  have "log 2 \<bar>x\<bar> < 53" using x1 x2 by (simp add: log_less_iff)
  then have e1: "e \<le> 52" unfolding e_def by linarith
  have u: "ulp_exp x = e - 52" using e0 by (simp add: ulp_exp_def e_def)
  define m where "m = nat (52 - e)"
  have p: "2 powr of_int (e - 52) = 1 / (2::real) ^ m"
  proof -
    have "of_int (e - 52) = - real m" using e1 by (simp add: m_def)
    then show ?thesis by (simp add: powr_minus powr_realpow inverse_eq_divide)
  qed
  have q: "x / (1 / 2 ^ m) = of_int (n * 2 ^ m)" by (simp add: x_def)
  have "round_ulp x = of_int (n * 2 ^ m) * (1 / 2 ^ m)"
    unfolding round_ulp_def u p q nearest_even_int ..
  also have "\<dots> = x" by (simp add: x_def)
  finally show ?thesis unfolding x_def .
qed

lemma round64_int:
  assumes "\<bar>n\<bar> < 2 ^ 53"
  shows "round64 (of_int n) = Fin (of_int n)"
proof -
  have "\<bar>real_of_int n\<bar> = of_int \<bar>n\<bar>" by simp
  then have "\<bar>real_of_int n\<bar> < 2 ^ 53" using of_int_less_pow2[OF assms] by simp
  also have "(2::real) ^ 53 \<le> 2 ^ 1024" by (rule power_increasing) simp_all
  finally have "\<not> 2 powr 1024 \<le> \<bar>real_of_int n\<bar>" by simp
  then show ?thesis by (simp add: round64_def round_ulp_int[OF assms])
qed

lemma round_ulp_1e16_plus_1: "round_ulp 10000000000000001 = 10000000000000000"
proof -
  have u: "ulp_exp 10000000000000001 = 1"
    using ulp_exp_eq[of 53 10000000000000001] by simp
  have n: "nearest_even (10000000000000001 / 2) = 5000000000000000"
  proof -
    have f: "\<lfloor>10000000000000001 / 2 :: real\<rfloor> = 5000000000000000" by linarith
    show ?thesis unfolding nearest_even_def f Let_def by simp
  qed
  show ?thesis by (simp add: round_ulp_def u n)
qed

lemma dadd_1e16_1: "dadd (Fin 10000000000000000) (Fin 1) = Fin 10000000000000000"
  by (simp add: dadd_def round64_def round_ulp_1e16_plus_1)

subsection \<open>C8: score\<close>

lemma fmax2_le: "fle (fmax2 a x) (Fin r) \<Longrightarrow> fle a (Fin r) \<and> fle x (Fin r)"
  by (cases a; cases x) (auto simp: fmax2_def split: if_splits)

lemma foldl_fmax2_le:
  "foldl fmax2 a xs = Fin r \<Longrightarrow> fle a (Fin r) \<and> (\<forall>v\<in>set xs. fle v (Fin r))"
proof (induction xs arbitrary: a)
  case Nil then show ?case by simp
next
  case (Cons x xs)
  from Cons.prems have "foldl fmax2 (fmax2 a x) xs = Fin r" by simp
  from Cons.IH[OF this]
  have 1: "fle (fmax2 a x) (Fin r)" and 2: "\<forall>v\<in>set xs. fle v (Fin r)" by blast+
  from fmax2_le[OF 1] have "fle a (Fin r)" "fle x (Fin r)" by blast+
  with 2 show ?case by simp
qed

lemma fmax_list_le:
  assumes "fmax_list xs = Inr (Fin r)"
  shows "\<forall>v\<in>set xs. fle v (Fin r)"
proof (cases xs)
  case Nil with assms show ?thesis by simp
next
  case (Cons y ys)
  with assms have "foldl fmax2 y ys = Fin r" by simp
  from foldl_fmax2_le[OF this] show ?thesis unfolding Cons by simp
qed

lemma flt_dadd_Fin: "flt m (dadd m (Fin 1)) \<Longrightarrow> \<exists>r. m = Fin r"
  by (cases m) (simp_all add: flt_def feq_def dadd_def)

lemma fle_flt_trans: "fle v (Fin r) \<Longrightarrow> flt (Fin r) t \<Longrightarrow> \<not> fge v t"
  by (cases v; cases t) (auto simp: flt_def feq_def fge_def)

text \<open>
  C8, as stated: \<open>score(x, max(x)+1)\<close> returns fraction 0 and count 0, for every array.
  The threshold \<open>max(x)+1\<close> is a double: from \<open>2 ^ 53\<close> on, the doubles are 2 or more
  apart and \<open>max(x)+1\<close> can round back to \<open>max(x)\<close>. For \<open>x = [1e16]\<close>, a double,
  \<open>1e16 + 1\<close> is \<open>1e16\<close> (the tie between \<open>1e16\<close> and \<open>1e16 + 2\<close> goes to the even
  multiple of 2), the one element is at the threshold, and \<open>score\<close> returns fraction 1
  and count 1.
\<close>

theorem score_max_plus_one_absorbed:
  "round64 10000000000000000 = Fin 10000000000000000 \<and>
   fmax_list (flat (A1 [Fin 10000000000000000])) = Inr (Fin 10000000000000000) \<and>
   dadd (Fin 10000000000000000) (Fin 1) = Fin 10000000000000000 \<and>
   score (A1 [Fin 10000000000000000]) (dadd (Fin 10000000000000000) (Fin 1)) 0
     = Inr (A0 (Fin 1), A0 1)"
proof -
  have u: "ulp_exp 10000000000000000 = 1"
    using ulp_exp_eq[of 53 10000000000000000] by simp
  have q: "(10000000000000000::real) / 2 = of_int 5000000000000000" by simp
  have r: "round_ulp 10000000000000000 = 10000000000000000"
    unfolding round_ulp_def u by (simp only: of_int_1 powr_one_eq_one powr_one q nearest_even_int)
  have d: "round64 10000000000000000 = Fin 10000000000000000"
    by (simp add: round64_def r)
  have a: "dadd (Fin 10000000000000000) (Fin 1) = Fin 10000000000000000"
    by (rule dadd_1e16_1)
  have s: "score (A1 [Fin 10000000000000000]) (Fin 10000000000000000) 0 = Inr (A0 (Fin 1), A0 1)"
    by (simp add: score_def reduce_axis_def shape_at_def norm_axis_def count_true_def fge_def)
  show ?thesis using d a s by simp
qed

text \<open>
  C8, amended. For every array \<open>x\<close> with at least one element along \<open>axis\<close> and every
  threshold \<open>t\<close>, \<open>score x t axis\<close> returns, per line along the axis, the count of the
  elements at or above \<open>t\<close>, a count between 0 and \<open>x.shape[axis]\<close>, and the fraction
  count / \<open>x.shape[axis]\<close>, a number in [0, 1]. When the double \<open>max(x) + 1\<close> is
  greater than \<open>max(x)\<close>, \<open>score x (max(x) + 1) axis\<close> returns count 0 and fraction 0
  on every line. (No condition on the entries is needed: \<open>max(x) < max(x) + 1\<close> fails
  when the maximum is \<open>nan\<close> or an infinity.)
\<close>

theorem score_fraction_and_count:
  assumes "wf_nd x" and "norm_axis (ndim x) axis = Some k" and "0 < shape x ! k"
  shows "\<exists>s count. score x t axis = Inr (s, count) \<and>
          flat count = map (count_ge t) (lines_along x k) \<and>
          list_all (\<lambda>c. c \<le> shape x ! k) (flat count) \<and>
          flat s = map (\<lambda>c. Fin (real c / real (shape x ! k))) (flat count) \<and>
          list_all (\<lambda>f. \<exists>r. f = Fin r \<and> 0 \<le> r \<and> r \<le> 1) (flat s) \<and>
          (\<forall>m. fmax_list (flat x) = Inr m \<longrightarrow> flt m (dadd m (Fin 1)) \<longrightarrow>
             (\<exists>s0 count0. score x (dadd m (Fin 1)) axis = Inr (s0, count0) \<and>
                list_all (\<lambda>c. c = 0) (flat count0) \<and>
                list_all (\<lambda>f. f = Fin 0) (flat s0)))"
proof -
  let ?n = "shape x ! k"
  have len: "\<And>l. l \<in> set (lines_along x k) \<Longrightarrow> length l = ?n"
    using assms line_length by blast
  have le: "\<And>u l. l \<in> set (lines_along x k) \<Longrightarrow> count_ge u l \<le> ?n"
    using len count_ge_le by metis
  have frac: "\<And>u l. l \<in> set (lines_along x k) \<Longrightarrow>
      fdiv (Fin (real (count_ge u l))) (Fin (real ?n)) = Fin (real (count_ge u l) / real ?n)"
    using le assms(3) fdiv_frac by blast
  obtain s count where sc: "score x t axis = Inr (s, count)"
    "flat count = map (count_ge t) (lines_along x k)"
    "flat s = map (\<lambda>l. fdiv (Fin (real (count_ge t l))) (Fin (real ?n))) (lines_along x k)"
    using score_eq[OF assms(1,2)] by blast
  have c_le: "list_all (\<lambda>c. c \<le> ?n) (flat count)"
    using sc(2) le by (simp add: list_all_iff)
  have s_eq: "flat s = map (\<lambda>c. Fin (real c / real ?n)) (flat count)"
    using sc(2,3) frac by (simp add: o_def)
  have s_rng: "list_all (\<lambda>f. \<exists>r. f = Fin r \<and> 0 \<le> r \<and> r \<le> 1) (flat s)"
    unfolding s_eq using c_le assms(3) by (auto simp: list_all_iff)
  have mx: "\<exists>s0 count0. score x (dadd m (Fin 1)) axis = Inr (s0, count0) \<and>
                list_all (\<lambda>c. c = 0) (flat count0) \<and>
                list_all (\<lambda>f. f = Fin 0) (flat s0)"
    if m: "fmax_list (flat x) = Inr m" and gt: "flt m (dadd m (Fin 1))" for m
  proof -
    from flt_dadd_Fin[OF gt] obtain r where r: "m = Fin r" by blast
    let ?u = "dadd m (Fin 1)"
    have mr: "fmax_list (flat x) = Inr (Fin r)" using m r by simp
    have gr: "flt (Fin r) ?u" using gt r by simp
    have nge: "\<not> fge v ?u" if "v \<in> set (flat x)" for v
    proof -
      have "fle v (Fin r)" using fmax_list_le[OF mr] that by blast
      then show ?thesis using gr by (rule fle_flt_trans)
    qed
    have z: "count_ge ?u l = 0" if "l \<in> set (lines_along x k)" for l
      using line_elems[OF assms(1) that] nge by (intro count_ge_zero) auto
    obtain s0 count0 where sc0: "score x ?u axis = Inr (s0, count0)"
      "flat count0 = map (count_ge ?u) (lines_along x k)"
      "flat s0 = map (\<lambda>l. fdiv (Fin (real (count_ge ?u l))) (Fin (real ?n))) (lines_along x k)"
      using score_eq[OF assms(1,2)] by blast
    have "list_all (\<lambda>c. c = 0) (flat count0)" using sc0(2) z by (simp add: list_all_iff)
    moreover have "list_all (\<lambda>f. f = Fin 0) (flat s0)"
      using sc0(3) z assms(3) by (simp add: list_all_iff)
    ultimately show ?thesis using sc0(1) by blast
  qed
  show ?thesis using sc(1,2) c_le s_eq s_rng mx by blast
qed

theorem score_fraction_and_count_witness:
  "wf_nd (A2 [[Fin 1, Fin 5], [Fin 3, Fin 0]]) \<and>
   norm_axis (ndim (A2 [[Fin 1, Fin 5], [Fin 3, Fin 0]])) 0 = Some 0 \<and>
   0 < shape (A2 [[Fin 1, Fin 5], [Fin 3, Fin 0]]) ! 0 \<and>
   score (A2 [[Fin 1, Fin 5], [Fin 3, Fin 0]]) (Fin 2) 0
     = Inr (A1 [Fin (1 / 2), Fin (1 / 2)], A1 [1, 1]) \<and>
   fmax_list (flat (A2 [[Fin 1, Fin 5], [Fin 3, Fin 0]])) = Inr (Fin 5) \<and>
   dadd (Fin 5) (Fin 1) = Fin 6 \<and>
   flt (Fin 5) (dadd (Fin 5) (Fin 1)) \<and>
   score (A2 [[Fin 1, Fin 5], [Fin 3, Fin 0]]) (dadd (Fin 5) (Fin 1)) 0
     = Inr (A1 [Fin 0, Fin 0], A1 [0, 0])"
proof -
  let ?x = "A2 [[Fin 1, Fin 5], [Fin 3, Fin 0]]"
  have h1: "wf_nd ?x" by (simp add: rect_def)
  have h2: "norm_axis (ndim ?x) 0 = Some 0" by (simp add: norm_axis_def)
  have h3: "0 < shape ?x ! 0" by simp
  have h5: "fmax_list (flat ?x) = Inr (Fin 5)" by (simp add: fmax2_def)
  have d: "dadd (Fin 5) (Fin 1) = Fin 6"
    using round64_int[of 6] by (simp add: dadd_def)
  have h6: "flt (Fin 5) (dadd (Fin 5) (Fin 1))" by (simp add: d flt_def feq_def)
  have e1: "score ?x (Fin 2) 0 = Inr (A1 [Fin (1 / 2), Fin (1 / 2)], A1 [1, 1])"
    by (simp add: score_def reduce_axis_def shape_at_def norm_axis_def columns_def
        count_true_def fge_def upt_rec)
  have e2: "score ?x (dadd (Fin 5) (Fin 1)) 0 = Inr (A1 [Fin 0, Fin 0], A1 [0, 0])"
    unfolding d
    by (simp add: score_def reduce_axis_def shape_at_def norm_axis_def columns_def
        count_true_def fge_def upt_rec)
  show ?thesis
    using score_fraction_and_count [OF h1 h2 h3, of "Fin 2"] h1 h2 h3 h5 d h6 e1 e2
    by blast
qed

subsection \<open>Lemmas on sums, minima and the smallest double\<close>

lemma float_MIN_pos: "0 < float_MIN"
  by (simp add: float_MIN_def)

lemma ln_float_MIN: "ln float_MIN = - (1022 * ln 2)"
proof -
  have "ln (1 / 2 ^ 1022 :: real) = ln 1 - ln (2 ^ 1022)"
    by (rule ln_divide_pos) (simp_all only: zero_less_one zero_less_power zero_less_numeral)
  also have "ln ((2::real) ^ 1022) = real 1022 * ln 2"
    by (rule ln_realpow)
  finally show ?thesis
    unfolding float_MIN_def by (simp only: ln_one of_nat_numeral diff_0)
qed

lemma foldl_fadd_Fin: "foldl fadd (Fin a) (map Fin rs) = Fin (a + sum_list rs)"
  by (induction rs arbitrary: a) (simp_all add: add.assoc)

lemma fsum_map_Fin: "fsum (map Fin rs) = Fin (sum_list rs)"
  by (simp add: fsum_def foldl_fadd_Fin)

lemma foldl_fmin2_Fin: "foldl fmin2 (Fin a) (map Fin rs) = Fin (fold min rs a)"
  by (induction rs arbitrary: a) (simp_all add: fmin2_def min_def)

lemma fold_min_ge: "(l::real) \<le> a \<Longrightarrow> \<forall>r\<in>set rs. l \<le> r \<Longrightarrow> l \<le> fold min rs a"
  by (induction rs arbitrary: a) simp_all

lemma fmin_list_nonneg:
  assumes "rs \<noteq> []" "\<forall>r\<in>set rs. 0 \<le> r"
  shows "\<exists>m. fmin_list (map Fin rs) = Inr (Fin m) \<and> 0 \<le> m"
proof (cases rs)
  case Nil with assms show ?thesis by simp
next
  case (Cons a as)
  with assms have "0 \<le> fold min as a" by (intro fold_min_ge) auto
  with Cons show ?thesis by (simp add: foldl_fmin2_Fin)
qed

lemma entropy_A1_0:
  assumes "2 \<le> length xs" and "\<not> feq (fsum xs) (Fin 0)"
    and "fmin_list xs = Inr mn" and "\<not> flt mn (Fin 0)"
  shows "entropy (A1 xs) 0 =
     Inr (Some (A0 (fdiv (fneg (fsum (map (\<lambda>p. fmul p (flog p))
                                  (map (\<lambda>v. pmf_fix (fdiv v (fsum xs))) xs))))
                         (Fin (ln (real (length xs)))))))"
proof -
  from assms(1) have "xs \<noteq> []" "length xs \<noteq> Suc 0" by auto
  with assms show ?thesis
    by (simp add: entropy_def ebind_def shape_at_def norm_axis_def pmf_of_def reduce_axis_def o_def)
qed

subsection \<open>C10: entropy of a zero total\<close>



subsection \<open>C3: entropy of a one-hot vector\<close>

text \<open>
  C3, as stated: the entropy of a one-hot vector of length at least 2 is exactly 0.
  It is not: the zero entries of the probability mass function are replaced by
  \<open>_MIN_\<close> before the logarithm, and each adds \<open>- _MIN_ * log(_MIN_)\<close> to the sum.
  For \<open>[1, 0]\<close> the result is \<open>1022 * _MIN_\<close>.
\<close>

theorem entropy_one_hot_not_zero:
  "entropy (A1 [Fin 1, Fin 0]) 0 = Inr (Some (A0 (Fin (1022 * float_MIN)))) \<and>
   entropy (A1 [Fin 1, Fin 0]) 0 \<noteq> Inr (Some (A0 (Fin 0)))"
proof -
  have "entropy (A1 [Fin 1, Fin 0]) 0 = Inr (Some (A0 (Fin (1022 * float_MIN))))"
    using float_MIN_pos
    by (simp add: entropy_def ebind_def shape_at_def norm_axis_def feq_def flt_def fsum_def
        fmin2_def pmf_of_def pmf_fix_def reduce_axis_def ln_float_MIN)
  moreover have "1022 * float_MIN \<noteq> 0" using float_MIN_pos by simp
  ultimately show ?thesis by simp
qed

text \<open>
  C3, amended: for a vector of length \<open>n \<ge> 2\<close> with one strictly positive entry and
  \<open>n - 1\<close> zeros, \<open>entropy\<close> along axis 0 returns
  \<open>(n - 1) * 1022 * log(2) * _MIN_ / log(n)\<close>, a strictly positive number (about
  \<open>1e-305\<close>), not 0.
\<close>

theorem entropy_one_hot:
  assumes "0 < v" and "1 \<le> a + b"
  shows "entropy (A1 (replicate a (Fin 0) @ Fin v # replicate b (Fin 0))) 0
           = Inr (Some (A0 (Fin (real (a + b) * (1022 * ln 2 * float_MIN) / ln (real (a + b + 1))))))
         \<and> 0 < real (a + b) * (1022 * ln 2 * float_MIN) / ln (real (a + b + 1))"
proof -
  let ?rs = "replicate a 0 @ v # replicate b (0::real)"
  let ?xs = "replicate a (Fin 0) @ Fin v # replicate b (Fin 0)"
  let ?q = "float_MIN * ln float_MIN"
  have xs: "?xs = map Fin ?rs" by simp
  have len: "length ?xs = a + b + 1" by simp
  have sum: "fsum ?xs = Fin v" unfolding xs fsum_map_Fin by (simp add: sum_list_replicate)
  have "\<exists>m. fmin_list (map Fin ?rs) = Inr (Fin m) \<and> 0 \<le> m"
    by (rule fmin_list_nonneg) (use assms(1) in auto)
  then obtain m where m: "fmin_list ?xs = Inr (Fin m)" "0 \<le> m"
    unfolding xs by blast
  have pl: "map (\<lambda>p. fmul p (flog p)) (map (\<lambda>v. pmf_fix (fdiv v (fsum ?xs))) ?xs)
      = map Fin (replicate a ?q @ 0 # replicate b ?q)"
    unfolding sum using assms(1) float_MIN_pos by (simp add: pmf_fix_def feq_def)
  have "fsum (map (\<lambda>p. fmul p (flog p)) (map (\<lambda>v. pmf_fix (fdiv v (fsum ?xs))) ?xs))
        = Fin (sum_list (replicate a ?q @ 0 # replicate b ?q))"
    by (simp only: pl fsum_map_Fin)
  also have "sum_list (replicate a ?q @ 0 # replicate b ?q) = real (a + b) * ?q"
    by (simp add: sum_list_replicate algebra_simps)
  finally have red: "fsum (map (\<lambda>p. fmul p (flog p)) (map (\<lambda>v. pmf_fix (fdiv v (fsum ?xs))) ?xs))
       = Fin (real (a + b) * ?q)" .
  have lnn: "0 < ln (real (a + b + 1))" using assms(2) by simp
  have val: "- (real (a + b) * ?q) / ln (real (a + b + 1))
      = real (a + b) * (1022 * ln 2 * float_MIN) / ln (real (a + b + 1))"
    by (simp add: ln_float_MIN)
  have "entropy (A1 ?xs) 0 =
     Inr (Some (A0 (fdiv (fneg (fsum (map (\<lambda>p. fmul p (flog p))
                                  (map (\<lambda>v. pmf_fix (fdiv v (fsum ?xs))) ?xs))))
                         (Fin (ln (real (length ?xs)))))))"
  proof (rule entropy_A1_0)
    show "2 \<le> length ?xs" using assms(2) by simp
    show "\<not> feq (fsum ?xs) (Fin 0)" unfolding sum using assms(1) by (simp add: feq_def)
    show "fmin_list ?xs = Inr (Fin m)" by (rule m(1))
    show "\<not> flt (Fin m) (Fin 0)" using m(2) by (simp add: flt_def feq_def)
  qed
  also have "\<dots> = Inr (Some (A0 (Fin (- (real (a + b) * ?q) / ln (real (a + b + 1))))))"
    unfolding red len using lnn by simp
  finally have "entropy (A1 ?xs) 0 =
      Inr (Some (A0 (Fin (real (a + b) * (1022 * ln 2 * float_MIN) / ln (real (a + b + 1))))))"
    unfolding val .
  moreover have "0 < real (a + b) * (1022 * ln 2 * float_MIN) / ln (real (a + b + 1))"
    using assms(2) lnn float_MIN_pos by simp
  ultimately show ?thesis by simp
qed

theorem entropy_one_hot_witness:
  "(0::real) < 2 \<and> (1::nat) \<le> 1 + 1 \<and>
   entropy (A1 (replicate 1 (Fin 0) @ Fin 2 # replicate 1 (Fin 0))) 0
     = Inr (Some (A0 (Fin (real (1 + 1) * (1022 * ln 2 * float_MIN) / ln (real (1 + 1 + 1)))))) \<and>
   0 < real (1 + 1) * (1022 * ln 2 * float_MIN) / ln (real (1 + 1 + 1))"
proof -
  have h1: "(0::real) < 2" by simp
  have h2: "(1::nat) \<le> 1 + 1" by simp
  show ?thesis using entropy_one_hot [OF h1 h2] h1 h2 by blast
qed

subsection \<open>C9: entropy is invariant to a positive scale\<close>

lemma is_pos_Fin: "is_pos v \<Longrightarrow> \<exists>r. v = Fin r \<and> 0 < r"
  by (cases v) (simp_all add: is_pos_def)


















subsection \<open>C1: gini and its input array\<close>

text \<open>
  C1 says that every index function, \<open>gini\<close> in particular, leaves its input array
  with the same values in the same order. \<open>gini\<close> does not: called on \<open>[3, 1, 2]\<close> it
  returns 2/9 and leaves the caller's array as \<open>[1, 2, 3]\<close>.
\<close>

theorem gini_sorts_its_input:
  "gini [Fin 3, Fin 1, Fin 2] False = (Fin (2 / 9), [Fin 1, Fin 2, Fin 3]) \<and>
   snd (gini [Fin 3, Fin 1, Fin 2] False) \<noteq> [Fin 3, Fin 1, Fin 2]"
  by (simp add: gini_def feq_def fsum_def np_sort_def sort_le_def fsub_def upt_rec)

subsection \<open>C4: acousticComplexityIndex on a spectrogram of zero total\<close>

lemma foldl_fadd_fin: "foldl fadd a xs = Fin t \<Longrightarrow> is_fin a \<and> list_all is_fin xs"
proof (induction xs arbitrary: a)
  case Nil then show ?case by simp
next
  case (Cons x xs)
  then have "is_fin (fadd a x)" "list_all is_fin xs" by auto
  moreover from \<open>is_fin (fadd a x)\<close> have "is_fin a \<and> is_fin x" by (cases a; cases x) auto
  ultimately show ?case by simp
qed

lemma fsum_fin: "fsum xs = Fin t \<Longrightarrow> list_all is_fin xs"
  unfolding fsum_def using foldl_fadd_fin by blast

lemma diff_fin: "list_all is_fin xs \<Longrightarrow> list_all is_fin (diff xs)"
proof (induction xs rule: diff.induct)
  case (1 x y ys)
  then show ?case by (cases x; cases y) (auto simp: fsub_def)
qed simp_all

lemma fdiv_abs_zero: "is_fin v \<Longrightarrow> fdiv (fabs v) (Fin 0) = NaN \<or> fdiv (fabs v) (Fin 0) = PInf"
  by (cases v) auto

text \<open>
  On every matrix whose entries sum to zero the call returns, and every entry of
  \<open>ACI_xx\<close> is \<open>nan\<close> (0/0) or \<open>inf\<close> (a non-zero difference over 0).
\<close>

lemma ACI_global_zero_total:
  assumes "fsum (flat (A2 rows)) = Fin 0"
  shows "\<exists>xx pb s. acousticComplexityIndex (A2 rows) ''global'' = Inr (A2 xx, A1 pb, s) \<and>
           xx = map (\<lambda>r. map (\<lambda>v. fdiv (fabs v) (Fin 0)) (diff r)) rows \<and>
           list_all (\<lambda>v. v = NaN \<or> v = PInf) (concat xx)"
proof -
  have fin: "list_all is_fin (concat rows)" using fsum_fin assms by simp
  let ?xx = "map (\<lambda>r. map (\<lambda>v. fdiv (fabs v) (Fin 0)) (diff r)) rows"
  have 1: "ACI_xx_of (A2 rows) ''global'' = Inr (A2 ?xx)"
    using assms by (simp add: ACI_xx_of_def nd_diff_def ebind_def o_def)
  have 2: "\<exists>pb. reduce_axis fsum (A2 ?xx) 1 = Inr (A1 pb)"
    by (simp add: reduce_axis_def norm_axis_def)
  have 3: "list_all (\<lambda>v. v = NaN \<or> v = PInf) (concat ?xx)"
  proof -
    have "list_all is_fin (diff r)" if "r \<in> set rows" for r
      using fin that by (intro diff_fin) (auto simp: list_all_iff)
    then show ?thesis using fdiv_abs_zero by (auto simp: list_all_iff)
  qed
  from 2 obtain pb where pb: "reduce_axis fsum (A2 ?xx) 1 = Inr (A1 pb)" by blast
  have "acousticComplexityIndex (A2 rows) ''global'' = Inr (A2 ?xx, A1 pb, fsum pb)"
    by (simp add: acousticComplexityIndex_def 1 pb ebind_def)
  with 3 show ?thesis by blast
qed

text \<open>
  C4 says that \<open>acousticComplexityIndex(Sxx, norm='global')\<close> on a spectrogram of zero
  total energy completes and returns results because the denominator is guarded. The
  denominator is not guarded: \<^verbatim>\<open>ACI_xx = (abs(diff(Sxx,1))/sum(Sxx))\<close> divides by the
  sum as it is, where \<open>roughness\<close> and \<open>acousticGradientIndex\<close> replace a zero divisor
  by \<open>_MIN_\<close> (\<^verbatim>\<open>if m==0 : m = _MIN_\<close>). No exception is raised, since NumPy's array
  division raises none, but what the call returns is no result: on the silent
  spectrogram (all entries 0) every entry of \<open>ACI_xx\<close>, every entry of \<open>ACI_per_bin\<close>
  and \<open>ACI_sum\<close> are \<open>nan\<close>; on a matrix whose non-zero entries cancel, the entries
  are \<open>nan\<close> and \<open>inf\<close>.
\<close>

theorem ACI_global_unguarded:
  "acousticComplexityIndex (A2 [[Fin 0, Fin 0, Fin 0], [Fin 0, Fin 0, Fin 0]]) ''global''
     = Inr (A2 [[NaN, NaN], [NaN, NaN]], A1 [NaN, NaN], NaN) \<and>
   acousticComplexityIndex (A2 [[Fin 0, Fin 0, Fin 0], [Fin 1, Fin (-1), Fin 0]]) ''global''
     = Inr (A2 [[NaN, NaN], [PInf, PInf]], A1 [NaN, PInf], NaN)"
  by (simp add: acousticComplexityIndex_def ACI_xx_of_def nd_diff_def ebind_def
      reduce_axis_def norm_axis_def fsum_def fsub_def)

subsection \<open>C7: acoustic_events on a single run\<close>

lemma offsets_one: "offsets (Suc 0) = [0]"
  by (simp add: offsets_def)

lemma map_get_b: "map (\<lambda>i. get_b b (int i)) [0..<length b] = b"
proof -
  have "map (\<lambda>i. get_b b (int i)) [0..<length b] = map (\<lambda>i. b ! i) [0..<length b]"
    by (rule map_cong[OF refl]) (simp add: get_b_def)
  then show ?thesis by (simp add: map_nth)
qed

lemma erosion_one: "binary_erosion b (Suc 0) = b"
  by (simp add: binary_erosion_def offsets_one map_get_b)

lemma dilation_one: "binary_dilation b (Suc 0) = b"
  by (simp add: binary_dilation_def offsets_one map_get_b)

lemma py_round_zero: "py_round 0 = 0"
  by (simp add: py_round_def)

lemma rle_runs_Nil_iff: "rle_runs ys = [] \<longleftrightarrow> ys = []"
  by (cases ys) (auto split: list.splits)

lemma rle_runs_hd: "rle_runs ys = (m, y) # rs \<Longrightarrow> ys \<noteq> [] \<and> hd ys = y"
  by (cases ys) (auto split: list.splits if_splits)

lemma rle_runs_replicate_app:
  assumes "0 < n" and "ys = [] \<or> hd ys \<noteq> x"
  shows "rle_runs (replicate n x @ ys) = (n, x) # rle_runs ys"
  using assms(1)
proof (induction n)
  case 0 then show ?case by simp
next
  case (Suc n)
  show ?case
  proof (cases "n = 0")
    case True
    show ?thesis
    proof (cases "rle_runs ys")
      case Nil then show ?thesis using True by simp
    next
      case (Cons p rs)
      obtain m y where p: "p = (m, y)" by (cases p)
      with Cons rle_runs_hd have "ys \<noteq> []" "hd ys = y" by auto
      with assms(2) have "x \<noteq> y" by auto
      then show ?thesis using True Cons p by simp
    qed
  next
    case False
    with Suc.IH have "rle_runs (replicate n x @ ys) = (n, x) # rle_runs ys" by simp
    then show ?thesis by simp
  qed
qed

lemma rle_runs_one_run:
  assumes "0 < L"
  shows "map fst (filter snd (rle_runs (replicate a False @ replicate L True @ replicate c False))) = [L]
       \<and> count_true (map snd (rle_runs (replicate a False @ replicate L True @ replicate c False))) = 1"
proof -
  have c: "rle_runs (replicate c False) = (if c = 0 then [] else [(c, False)])"
    using rle_runs_replicate_app[of c "[]" False] by simp
  have "replicate c False = [] \<or> hd (replicate c False) \<noteq> True" by (cases c) auto
  then have m: "rle_runs (replicate L True @ replicate c False) = (L, True) # rle_runs (replicate c False)"
    using assms by (rule rle_runs_replicate_app[rotated])
  have h: "hd (replicate L True @ replicate c False) \<noteq> False" using assms by (cases L) auto
  have f: "rle_runs (replicate a False @ replicate L True @ replicate c False)
      = (if a = 0 then [] else [(a, False)]) @ (L, True) # rle_runs (replicate c False)"
  proof (cases "a = 0")
    case True then show ?thesis using m by simp
  next
    case False
    then have "rle_runs (replicate a False @ (replicate L True @ replicate c False))
        = (a, False) # rle_runs (replicate L True @ replicate c False)"
      using h by (intro rle_runs_replicate_app) auto
    then show ?thesis using False m by simp
  qed
  show ?thesis unfolding f c by (simp add: count_true_def)
qed


lemma map_all_const: "list_all (\<lambda>v. f v = c) xs \<Longrightarrow> map f xs = replicate (length xs) c"
  by (induction xs) simp_all

lemma acoustic_events_A1_zero:
  assumes "dt \<noteq> 0"
  shows "acoustic_events (A1 xs) dt thr (Some 0) =
     (case events_of_line (map (\<lambda>v. fge v thr) xs) dt (Fin ((real (length xs) - 1) * dt)) of
        (EVNsum, EVNmean, EVNcount) \<Rightarrow>
          Inr (A0 EVNsum, A0 EVNmean, A0 EVNcount, A1 (map (\<lambda>v. fge v thr) xs)))"
  using assms
  by (simp add: acoustic_events_def py_round_zero ebind_def erosion_one dilation_one Let_def
      del: map_append)

text \<open>
  C7. For a vector of \<open>n\<close> samples with exactly one maximal run of \<open>L \<ge> 1\<close> samples at
  or above the threshold, all others below, and a time resolution \<open>dt \<noteq> 0\<close>,
  \<open>acoustic_events\<close> with \<open>rejectDuration = 0\<close> returns \<open>EVNsum = L * dt\<close>,
  \<open>EVNmean = L * dt\<close> and \<open>EVNcount = 1 / duration\<close> with
  \<open>duration = (n - 1) * dt\<close> (a NumPy division: \<open>inf\<close> when \<open>n = 1\<close>), and the
  thresholded vector unchanged by the opening.
\<close>

theorem acoustic_events_one_run:
  assumes "dt \<noteq> 0" and "run \<noteq> []"
    and "list_all (\<lambda>v. \<not> fge v thr) pre"
    and "list_all (\<lambda>v. fge v thr) run"
    and "list_all (\<lambda>v. \<not> fge v thr) post"
  shows "acoustic_events (A1 (pre @ run @ post)) dt thr (Some 0)
       = Inr (A0 (Fin (real (length run) * dt)),
              A0 (Fin (real (length run) * dt)),
              A0 (fdiv (Fin 1) (Fin ((real (length (pre @ run @ post)) - 1) * dt))),
              A1 (replicate (length pre) False @ replicate (length run) True
                    @ replicate (length post) False))"
proof -
  let ?b = "replicate (length pre) False @ replicate (length run) True
              @ replicate (length post) False"
  have L: "0 < length run" using assms(2) by simp
  have b: "map (\<lambda>v. fge v thr) (pre @ run @ post) = ?b"
    using assms(3-5) by (simp add: map_all_const)
  from rle_runs_one_run[OF L, of "length pre" "length post"]
  have l1: "map fst (filter snd (rle_runs ?b)) = [length run]"
    and cnt: "count_true (map snd (rle_runs ?b)) = 1" by auto
  have z: "map fst (filter snd (zip (map fst (rle_runs ?b)) (map snd (rle_runs ?b))))
      = map fst (filter snd (rle_runs ?b))"
    by (simp add: zip_map_fst_snd)
  have ev: "events_of_line ?b dt d = (Fin (real (length run) * dt), Fin (real (length run) * dt),
       fdiv (Fin 1) d)" for d
    unfolding events_of_line_def rle_def Let_def prod.case z l1 cnt using L
    by simp
  show ?thesis
    by (simp only: acoustic_events_A1_zero[OF assms(1)] b ev prod.case)
qed

theorem acoustic_events_one_run_witness:
  "(1 / 2 :: real) \<noteq> 0 \<and> [Fin 7, Fin 8] \<noteq> [] \<and>
   list_all (\<lambda>v. \<not> fge v (Fin 6)) [Fin 0] \<and>
   list_all (\<lambda>v. fge v (Fin 6)) [Fin 7, Fin 8] \<and>
   list_all (\<lambda>v. \<not> fge v (Fin 6)) [Fin 1, Fin 2] \<and>
   acoustic_events (A1 [Fin 0, Fin 7, Fin 8, Fin 1, Fin 2]) (1 / 2) (Fin 6) (Some 0)
     = Inr (A0 (Fin 1), A0 (Fin 1), A0 (Fin (1 / 2)), A1 [False, True, True, False, False])"
proof -
  have h1: "(1 / 2 :: real) \<noteq> 0" by simp
  have h2: "[Fin 7, Fin 8] \<noteq> []" by simp
  have h3: "list_all (\<lambda>v. \<not> fge v (Fin 6)) [Fin 0]" by (simp add: fge_def)
  have h4: "list_all (\<lambda>v. fge v (Fin 6)) [Fin 7, Fin 8]" by (simp add: fge_def)
  have h5: "list_all (\<lambda>v. \<not> fge v (Fin 6)) [Fin 1, Fin 2]" by (simp add: fge_def)
  show ?thesis
    using acoustic_events_one_run [OF h1 h2 h3 h4 h5] h1 h2 h3 h4 h5
    by (simp add: numeral_2_eq_2)
qed

subsection \<open>C2: the errors of intoBins\<close>

text \<open>
  The check of \<open>bin_step\<close> is as C2 says: with at least two positions, \<open>intoBins\<close>
  raises its \<open>Exception\<close> (the spec's InvalidArgument) exactly when \<open>bin_step\<close> is
  strictly smaller than \<open>an[1] - an[0]\<close>; every other error of the function is an
  IndexError or a ZeroDivisionError.
\<close>

lemma bin_mean_error: "bin_mean x an axis bb = Inl e \<Longrightarrow> e = IndexError"
  by (auto simp: bin_mean_def Let_def split: if_splits ndarray.splits)

lemma bin_loop_error: "bin_loop x an axis pairs = Inl e \<Longrightarrow> e = IndexError"
proof (induction pairs arbitrary: e)
  case Nil then show ?case by simp
next
  case (Cons bb bbs)
  then show ?case
    by (auto simp: ebind_def split: sum.splits dest: bin_mean_error)
qed

lemma intoBins_Exception_iff:
  assumes "2 \<le> length an"
  shows "(\<exists>msg. intoBins x an bin_step axis bin_min bin_max = Inl (Exception msg))
           \<longleftrightarrow> bin_step < an ! 1 - an ! 0"
proof
  assume "\<exists>msg. intoBins x an bin_step axis bin_min bin_max = Inl (Exception msg)"
  then obtain msg where m: "intoBins x an bin_step axis bin_min bin_max = Inl (Exception msg)" ..
  show "bin_step < an ! 1 - an ! 0"
  proof (rule ccontr)
    assume "\<not> bin_step < an ! 1 - an ! 0"
    with m assms show False
      by (auto simp: intoBins_def arange_def ebind_def Let_def split: if_splits sum.splits
          dest: bin_loop_error)
  qed
next
  assume "bin_step < an ! 1 - an ! 0"
  with assms show "\<exists>msg. intoBins x an bin_step axis bin_min bin_max = Inl (Exception msg)"
    by (simp add: intoBins_def)
qed

text \<open>
  C2 also says that with \<open>bin_step\<close> at or above the resolution the call returns the
  binned array. The docstring takes a 1D or 2D array \<open>x\<close>, but the loop indexes two
  dimensions (\<open>x[indices,:]\<close>): for the vector \<open>[1, 2, 3]\<close> at the positions
  \<open>[0, 1, 2]\<close> and \<open>bin_step = 1\<close>, the native resolution, the call raises IndexError.
\<close>

theorem intoBins_vector_IndexError:
  "\<not> (1::real) < [0, 1, 2] ! 1 - [0, 1, 2] ! 0 \<and>
   intoBins (A1 [Fin 1, Fin 2, Fin 3]) [0, 1, 2] 1 0 None None = Inl IndexError"
  by (simp add: intoBins_def arange_def ebind_def bin_mean_def upt_rec)

subsection \<open>C6: soundscapeIndex with all energy in the biophony band\<close>

lemma in_bin_fun: "(\<lambda>a. fst bb \<le> a \<and> a < snd bb) = in_bin bb"
  by (simp add: in_bin_def fun_eq_iff)

lemma bin_loop_matrix:
  assumes "length rows = length an"
  shows "bin_loop (A2 rows) an 0 pairs =
     Inr (map (\<lambda>bb. map (\<lambda>j. mean_list (map (\<lambda>r. r ! j) (select (map (in_bin bb) an) rows)))
                       [0..<ncols rows]) pairs)"
  using assms
  by (induction pairs) (simp_all add: ebind_def bin_mean_def in_bin_fun)

lemma zip_tl_fst: "bins \<noteq> [] \<Longrightarrow> map fst (zip bins (tl bins)) = butlast bins"
proof (induction bins)
  case Nil then show ?case by simp
next
  case (Cons b bs)
  then show ?case by (cases bs) simp_all
qed

lemma select_map_map: "select (map Q xs) (map g xs) = map g (filter Q xs)"
  by (induction xs) (simp_all add: select_def)

lemma intoBins_matrix:
  assumes "length rows = length fn" and "2 \<le> length fn" and "\<not> st < fn ! 1 - fn ! 0"
    and "0 < st" and "bin_pairs fn st \<noteq> []"
  shows "\<exists>bins. bins \<noteq> [] \<and> bin_pairs fn st = zip bins (tl bins) \<and>
     intoBins (A2 rows) fn st 0 (Some 0) (Some (last fn)) =
       Inr (A2 (map (bin_row rows fn (occupancy fn (bin_pairs fn st))) (bin_pairs fn st)),
            butlast bins)"
proof -
  obtain bins where ar: "arange 0 (last fn + st) st = Inr bins"
    using assms(4) by (simp add: arange_def)
  then have bp: "bin_pairs fn st = zip bins (tl bins)" by (simp add: bin_pairs_def)
  with assms(5) have ne: "bins \<noteq> []" by auto
  have "intoBins (A2 rows) fn st 0 (Some 0) (Some (last fn)) =
       Inr (A2 (map (bin_row rows fn (occupancy fn (bin_pairs fn st))) (bin_pairs fn st)),
            butlast bins)"
    using assms(1-3,5) ne
    by (simp add: intoBins_def ar ebind_def bin_loop_matrix bp[symmetric] Let_def in_bin_fun
        bin_row_def occupancy_def o_def)
  with ne bp show ?thesis by blast
qed

lemma energy_matrix:
  assumes "length rows = length fn" and "2 \<le> length fn" and "\<not> st < fn ! 1 - fn ! 0"
    and "0 < st" and "bin_pairs fn st \<noteq> []"
  shows "energy_per_freqbin (A2 rows) fn flim st =
     Inr (fsum (concat (map (bin_row rows fn (occupancy fn (bin_pairs fn st)))
                          (filter (in_band flim) (bin_pairs fn st)))))"
proof -
  from intoBins_matrix[OF assms] obtain bins where b: "bins \<noteq> []"
    "bin_pairs fn st = zip bins (tl bins)"
    "intoBins (A2 rows) fn st 0 (Some 0) (Some (last fn)) =
       Inr (A2 (map (bin_row rows fn (occupancy fn (bin_pairs fn st))) (bin_pairs fn st)),
            butlast bins)" by blast
  have fne: "fn \<noteq> []" using assms(2) by auto
  have bl: "butlast bins = map fst (bin_pairs fn st)"
    unfolding b(2) using zip_tl_fst[OF b(1)] by simp
  have ib: "index_bw (map fst (bin_pairs fn st)) flim = map (in_band flim) (bin_pairs fn st)"
    by (simp add: index_bw_def in_band_def)
  show ?thesis
    unfolding energy_per_freqbin_def b(3) bl
    using fne by (simp add: ebind_def ib select_map_map)
qed

lemma is_nonneg_Fin: "is_nonneg v \<Longrightarrow> \<exists>r. v = Fin r \<and> 0 \<le> r"
  by (cases v) (simp_all add: is_nonneg_def)

lemma is_pos_nonneg: "is_pos v \<Longrightarrow> is_nonneg v"
  by (cases v) (simp_all add: is_pos_def is_nonneg_def)

lemma nonneg_list_ex:
  "list_all is_nonneg xs \<Longrightarrow> \<exists>rs. xs = map Fin rs \<and> (\<forall>r\<in>set rs. 0 \<le> r)"
proof (induction xs)
  case Nil then show ?case by simp
next
  case (Cons x xs)
  then obtain rs where rs: "xs = map Fin rs" "\<forall>r\<in>set rs. 0 \<le> r" by auto
  from Cons.prems obtain r where r: "x = Fin r" "0 \<le> r" using is_nonneg_Fin by auto
  have "x # xs = map Fin (r # rs) \<and> (\<forall>a\<in>set (r # rs). 0 \<le> a)" using rs r by simp
  then show ?case by (rule exI[of _ "r # rs"])
qed

lemma fsum_all_zero: "list_all (\<lambda>v. v = Fin 0) xs \<Longrightarrow> fsum xs = Fin 0"
  unfolding fsum_def by (induction xs) simp_all

lemma fsum_nonneg: "list_all is_nonneg xs \<Longrightarrow> is_nonneg (fsum xs)"
proof -
  assume "list_all is_nonneg xs"
  from nonneg_list_ex[OF this] obtain rs where rs: "xs = map Fin rs" "\<forall>r\<in>set rs. 0 \<le> r" by blast
  then have "0 \<le> sum_list rs" by (simp add: sum_list_nonneg)
  then show ?thesis by (simp add: rs(1) fsum_map_Fin is_nonneg_def)
qed

lemma fsum_pos:
  assumes "list_all is_nonneg xs" and "x \<in> set xs" and "is_pos x"
  shows "is_pos (fsum xs)"
proof -
  from split_list[OF assms(2)] obtain as bs where xs: "xs = as @ x # bs" by blast
  from assms(1) have a: "list_all is_nonneg as" and b: "list_all is_nonneg bs" by (simp_all add: xs)
  from nonneg_list_ex[OF a] obtain ra where ra: "as = map Fin ra" "\<forall>r\<in>set ra. 0 \<le> r" by blast
  from nonneg_list_ex[OF b] obtain rb where rb: "bs = map Fin rb" "\<forall>r\<in>set rb. 0 \<le> r" by blast
  from assms(3) obtain r where r: "x = Fin r" "0 < r" using is_pos_Fin by blast
  have "xs = map Fin (ra @ r # rb)" by (simp add: xs ra rb r)
  moreover have "0 < sum_list (ra @ r # rb)"
    using sum_list_nonneg[of ra] sum_list_nonneg[of rb] ra(2) rb(2) r(2) by simp
  ultimately show ?thesis by (simp add: fsum_map_Fin is_pos_def del: map_append)
qed

lemma mean_all_zero: "xs \<noteq> [] \<Longrightarrow> list_all (\<lambda>v. v = Fin 0) xs \<Longrightarrow> mean_list xs = Fin 0"
  by (simp add: mean_list_def fsum_all_zero)

lemma mean_nonneg: "xs \<noteq> [] \<Longrightarrow> list_all is_nonneg xs \<Longrightarrow> is_nonneg (mean_list xs)"
proof -
  assume ne: "xs \<noteq> []" and "list_all is_nonneg xs"
  from fsum_nonneg[OF this(2)] obtain s where "fsum xs = Fin s" "0 \<le> s" using is_nonneg_Fin by blast
  with ne show ?thesis by (simp add: mean_list_def is_nonneg_def)
qed

lemma mean_pos:
  assumes "list_all is_nonneg xs" and "x \<in> set xs" and "is_pos x"
  shows "is_pos (mean_list xs)"
proof -
  from fsum_pos[OF assms] obtain s where "fsum xs = Fin s" "0 < s" using is_pos_Fin by blast
  moreover have "xs \<noteq> []" using assms(2) by auto
  ultimately show ?thesis by (simp add: mean_list_def is_pos_def)
qed

lemma fmul_zero_pos: "is_pos ms \<Longrightarrow> fmul (Fin 0) ms = Fin 0"
  by (cases ms) (simp_all add: is_pos_def)

lemma fmul_nonneg_pos: "is_nonneg v \<Longrightarrow> is_pos ms \<Longrightarrow> is_nonneg (fmul v ms)"
  by (cases v; cases ms) (simp_all add: is_pos_def is_nonneg_def)

lemma fmul_pos_pos: "is_pos v \<Longrightarrow> is_pos ms \<Longrightarrow> is_pos (fmul v ms)"
  by (cases v; cases ms) (simp_all add: is_pos_def)

lemma select_mem:
  assumes "length bs = length xs"
  shows "r \<in> set (select bs xs) \<longleftrightarrow> (\<exists>i<length xs. bs ! i \<and> r = xs ! i)"
proof
  assume "r \<in> set (select bs xs)"
  then obtain p where p: "p \<in> set (zip bs xs)" "fst p" "snd p = r"
    by (auto simp: select_def)
  from p(1) obtain n where "bs ! n = fst p" "xs ! n = snd p" "n < length bs" "n < length xs"
    unfolding in_set_zip by blast
  with p(2,3) show "\<exists>i<length xs. bs ! i \<and> r = xs ! i" by auto
next
  assume "\<exists>i<length xs. bs ! i \<and> r = xs ! i"
  then obtain i where i: "i < length xs" "bs ! i" "r = xs ! i" by blast
  with assms have "(bs ! i, xs ! i) \<in> set (zip bs xs)"
    unfolding in_set_zip by (intro exI[of _ i]) simp
  with i(2,3) show "r \<in> set (select bs xs)"
    unfolding select_def by force
qed

lemma select_length: "length bs = length xs \<Longrightarrow> length (select bs xs) = count_true bs"
  by (induction bs xs rule: list_induct2) (simp_all add: select_def count_true_def)

lemma count_true_pos: "list_ex (\<lambda>b. b) bs \<Longrightarrow> 0 < count_true bs"
  by (induction bs) (auto simp: count_true_def)

lemma sum_list_ge_length: "(\<forall>x\<in>set xs. 1 \<le> f x) \<Longrightarrow> length xs \<le> sum_list (map f xs)"
  for f :: "'a \<Rightarrow> nat"
  by (induction xs) auto

lemma occupancy_pos:
  assumes "pairs \<noteq> []" and "list_all (\<lambda>bb. list_ex (in_bin bb) an) pairs"
  shows "is_pos (occupancy an pairs)"
proof -
  have "1 \<le> count_true (map (in_bin bb) an)" if "bb \<in> set pairs" for bb
  proof -
    from assms(2) that have "list_ex (in_bin bb) an" by (simp add: list_all_iff)
    then have "list_ex (\<lambda>b. b) (map (in_bin bb) an)" by (simp add: list_ex_iff)
    from count_true_pos[OF this] show ?thesis by simp
  qed
  then have "length pairs \<le> sum_list (map (\<lambda>bb. count_true (map (in_bin bb) an)) pairs)"
    by (intro sum_list_ge_length) auto
  moreover have "0 < length pairs" using assms(1) by simp
  ultimately have "0 < sum_list (map (\<lambda>bb. count_true (map (in_bin bb) an)) pairs)" by linarith
  with \<open>0 < length pairs\<close> show ?thesis by (simp add: occupancy_def is_pos_def)
qed

lemma sel_props:
  assumes "rect Q" and "length Q = length an" and "list_ex (in_bin bb) an"
  shows "select (map (in_bin bb) an) Q \<noteq> []"
    and "r \<in> set (select (map (in_bin bb) an) Q)
           \<longleftrightarrow> (\<exists>i<length an. in_bin bb (an ! i) \<and> r = Q ! i)"
proof -
  have len: "length (map (in_bin bb) an) = length Q" using assms(2) by simp
  have "list_ex (\<lambda>b. b) (map (in_bin bb) an)" using assms(3) by (simp add: list_ex_iff)
  from count_true_pos[OF this] select_length[OF len]
  show "select (map (in_bin bb) an) Q \<noteq> []" by auto
  show "r \<in> set (select (map (in_bin bb) an) Q)
           \<longleftrightarrow> (\<exists>i<length an. in_bin bb (an ! i) \<and> r = Q ! i)"
    unfolding select_mem[OF len] using assms(2) by auto
qed

lemma rect_nth: "rect Q \<Longrightarrow> i < length Q \<Longrightarrow> length (Q ! i) = ncols Q"
  by (simp add: rect_def list_all_iff)

lemma bin_row_nonneg:
  assumes "rect Q" and "length Q = length an" and "list_ex (in_bin bb) an"
    and "list_all is_nonneg (concat Q)" and "is_pos ms"
  shows "list_all is_nonneg (bin_row Q an ms bb)"
proof -
  let ?sel = "select (map (in_bin bb) an) Q"
  have "is_nonneg (fmul (mean_list (map (\<lambda>r. r ! j) ?sel)) ms)" if j: "j < ncols Q" for j
  proof -
    have "is_nonneg (r ! j)" if "r \<in> set ?sel" for r
    proof -
      from that sel_props(2)[OF assms(1-3)] obtain i where i: "i < length an" "r = Q ! i" by blast
      then have "j < length r" using rect_nth[OF assms(1)] assms(2) j by simp
      moreover have "r \<in> set Q" using i assms(2) by simp
      ultimately have "r ! j \<in> set (concat Q)" using nth_mem by auto
      with assms(4) show ?thesis by (auto simp: list_all_iff)
    qed
    then have "list_all is_nonneg (map (\<lambda>r. r ! j) ?sel)" by (simp add: list_all_iff)
    moreover have "map (\<lambda>r. r ! j) ?sel \<noteq> []" using sel_props(1)[OF assms(1-3)] by simp
    ultimately show ?thesis using mean_nonneg fmul_nonneg_pos assms(5) by blast
  qed
  then show ?thesis by (simp add: bin_row_def list_all_iff)
qed

lemma bin_row_zero:
  assumes "rect Q" and "length Q = length an" and "list_ex (in_bin bb) an"
    and "\<And>i. i < length an \<Longrightarrow> in_bin bb (an ! i) \<Longrightarrow> list_all (\<lambda>v. v = Fin 0) (Q ! i)"
    and "is_pos ms"
  shows "list_all (\<lambda>v. v = Fin 0) (bin_row Q an ms bb)"
proof -
  let ?sel = "select (map (in_bin bb) an) Q"
  have "fmul (mean_list (map (\<lambda>r. r ! j) ?sel)) ms = Fin 0" if j: "j < ncols Q" for j
  proof -
    have "r ! j = Fin 0" if "r \<in> set ?sel" for r
    proof -
      from that sel_props(2)[OF assms(1-3)] obtain i where
        i: "i < length an" "in_bin bb (an ! i)" "r = Q ! i" by blast
      then have "j < length r" using rect_nth[OF assms(1)] assms(2) j by simp
      moreover have "list_all (\<lambda>v. v = Fin 0) r" using assms(4) i by simp
      ultimately show ?thesis by (simp add: list_all_length)
    qed
    then have "list_all (\<lambda>v. v = Fin 0) (map (\<lambda>r. r ! j) ?sel)" by (simp add: list_all_iff)
    moreover have "map (\<lambda>r. r ! j) ?sel \<noteq> []" using sel_props(1)[OF assms(1-3)] by simp
    ultimately have "mean_list (map (\<lambda>r. r ! j) ?sel) = Fin 0" by (rule mean_all_zero[rotated])
    then show ?thesis using fmul_zero_pos[OF assms(5)] by simp
  qed
  then show ?thesis by (simp add: bin_row_def list_all_iff)
qed

lemma bin_row_pos:
  assumes "rect Q" and "length Q = length an" and "list_all is_nonneg (concat Q)"
    and "is_pos ms" and "i < length an" and "in_bin bb (an ! i)" and "t < ncols Q"
    and "is_pos (Q ! i ! t)"
  shows "\<exists>v\<in>set (bin_row Q an ms bb). is_pos v"
proof -
  let ?sel = "select (map (in_bin bb) an) Q"
  have ex: "list_ex (in_bin bb) an" using assms(5,6) by (auto simp: list_ex_iff)
  have mem: "Q ! i \<in> set ?sel" using sel_props(2)[OF assms(1,2) ex] assms(5,6) by blast
  have nn: "list_all is_nonneg (map (\<lambda>r. r ! t) ?sel)"
  proof -
    have "is_nonneg (r ! t)" if "r \<in> set ?sel" for r
    proof -
      from that sel_props(2)[OF assms(1,2) ex] obtain k where k: "k < length an" "r = Q ! k" by blast
      then have "t < length r" using rect_nth[OF assms(1)] assms(2,7) by simp
      moreover have "r \<in> set Q" using k assms(2) by simp
      ultimately have "r ! t \<in> set (concat Q)" using nth_mem by auto
      with assms(3) show ?thesis by (auto simp: list_all_iff)
    qed
    then show ?thesis by (simp add: list_all_iff)
  qed
  have "Q ! i ! t \<in> set (map (\<lambda>r. r ! t) ?sel)" using mem by auto
  from mean_pos[OF nn this assms(8)] fmul_pos_pos assms(4)
  have "is_pos (fmul (mean_list (map (\<lambda>r. r ! t) ?sel)) ms)" by blast
  moreover have "fmul (mean_list (map (\<lambda>r. r ! t) ?sel)) ms \<in> set (bin_row Q an ms bb)"
    using assms(7) by (auto simp: bin_row_def)
  ultimately show ?thesis by blast
qed

lemma rect_map: "rect rows \<Longrightarrow> rect (map (map f) rows)"
  by (simp add: rect_def list_all_iff ncols_map)

lemma sq_nonneg: "is_fin v \<Longrightarrow> is_nonneg (fmul v v)"
  by (cases v) (simp_all add: is_nonneg_def)

lemma sq_pos: "is_fin v \<Longrightarrow> v \<noteq> Fin 0 \<Longrightarrow> is_pos (fmul v v)"
  by (cases v) (auto simp: is_pos_def zero_less_mult_iff)

lemma ndsi_values:
  assumes "is_pos b"
  shows "\<exists>r. 0 < r \<and> b = Fin r \<and> fdiv (fsub b (Fin 0)) (fadd b (Fin 0)) = Fin 1
           \<and> fdiv b (Fin 0) = PInf"
  using assms by (cases b) (simp_all add: is_pos_def fsub_def)

text \<open>
  C6 says that for every spectrogram whose energy is entirely inside the biophony band,
  the anthropophony band being all zeros, \<open>NDSI = 1.0\<close> and \<open>ratioBA = inf\<close>; the
  docstring gives \<open>bioPh\<close> as the acoustic energy in the biophonic bandwidth. The code
  loses the energy at the last frequency: \<open>_energy_per_freqbin\<close> calls \<open>intoBins\<close>
  with \<open>bin_max = fn[-1]\<close>, whose bins are half-open and end at \<open>bin_max\<close>, so the row
  of \<open>fn[-1]\<close> is in no bin. With the frequencies 0, 1000, 2000 Hz and all the energy at
  2000 Hz, inside the biophony band (1000, 10000), \<open>bioPh\<close> and \<open>antroPh\<close> are both 0
  and \<open>NDSI\<close> and \<open>ratioBA\<close> are both \<open>nan\<close>.
\<close>

theorem soundscapeIndex_last_row:
  "soundscapeIndex (A2 [[Fin 0], [Fin 0], [Fin 1]]) [0, 1000, 2000] (1000, 10000) (0, 1000) None
     = Inr (NaN, NaN, Fin 0, Fin 0)"
  by (simp add: soundscapeIndex_def energy_per_freqbin_def intoBins_def arange_def ebind_def
      bin_mean_def mean_list_def select_def count_true_def fsum_def index_bw_def fsub_def upt_rec)

text \<open>
  A second loss, with \<open>index_bw\<close> selecting the bins whose lower edge is within
  \<open>[fmin, fmax]\<close>: the bands (0, 1000) and (1000, 10000) both select the bin
  [1000, 2000), so energy at 1500 Hz alone, which is inside the biophony band only, is
  counted as anthropophony too: \<open>antroPh = bioPh = 1\<close>, \<open>NDSI = 0\<close> and \<open>ratioBA = 1\<close>.
\<close>

lemma soundscapeIndex_shared_bin:
  "soundscapeIndex (A2 [[Fin 0], [Fin 0], [Fin 0], [Fin 1], [Fin 0], [Fin 0]])
       [0, 500, 1000, 1500, 2000, 2500] (1000, 10000) (0, 1000) (Some 1000)
     = Inr (Fin 0, Fin 1, Fin 1, Fin 1)"
  by (simp add: soundscapeIndex_def energy_per_freqbin_def intoBins_def arange_def ebind_def
      bin_mean_def mean_list_def select_def count_true_def fsum_def index_bw_def fsub_def upt_rec)

text \<open>
  What does hold, in exact arithmetic (the squares \<open>Sxx**2\<close> neither underflow nor
  overflow): for a spectrogram of finite values on frequencies \<open>fn\<close>, re-binned with a
  step \<open>st > 0\<close> not below the resolution such that every bin holds a frequency, if
  every row whose frequency is in a bin that the anthropophony band selects is zero and
  some row whose frequency is in a bin that the biophony band selects has a non-zero
  entry, then \<open>NDSI = 1\<close>, \<open>ratioBA = inf\<close>, \<open>antroPh = 0\<close> and \<open>bioPh > 0\<close>. The
  rows of \<open>band_rows\<close> are not the rows of the band: the row of \<open>fn[-1]\<close> is in none,
  and the rows of a bin that both bands select are in both.
\<close>

lemma soundscapeIndex_bio_only:
  assumes "rect rows" and "length rows = length fn" and "2 \<le> length fn"
    and "list_all is_fin (concat rows)"
    and "st = (case step of None \<Rightarrow> fn ! 1 - fn ! 0 | Some s \<Rightarrow> s)"
    and "0 < st" and "\<not> st < fn ! 1 - fn ! 0"
    and "list_all (\<lambda>bb. list_ex (in_bin bb) fn) (bin_pairs fn st)"
    and "list_all (\<lambda>i. list_all (\<lambda>v. v = Fin 0) (rows ! i)) (band_rows fn st flim_antroPh)"
    and "list_ex (\<lambda>i. list_ex (\<lambda>v. v \<noteq> Fin 0) (rows ! i)) (band_rows fn st flim_bioPh)"
  shows "\<exists>bioPh. 0 < bioPh \<and>
           soundscapeIndex (A2 rows) fn flim_bioPh flim_antroPh step
             = Inr (Fin 1, PInf, Fin 0, Fin bioPh)"
proof -
  let ?P = "map (map (\<lambda>v. fmul v v)) rows"
  let ?pairs = "bin_pairs fn st"
  let ?ms = "occupancy fn ?pairs"
  have rP: "rect ?P" using assms(1) by (rule rect_map)
  have lP: "length ?P = length fn" using assms(2) by simp
  have cP: "ncols ?P = ncols rows" by (rule ncols_map)
  have nnP: "list_all is_nonneg (concat ?P)"
    using assms(4) by (auto simp: list_all_iff sq_nonneg)
  from assms(10) obtain i0 where i0: "i0 \<in> set (band_rows fn st flim_bioPh)"
    "list_ex (\<lambda>v. v \<noteq> Fin 0) (rows ! i0)" by (auto simp: list_ex_iff)
  from i0(1) have i0n: "i0 < length fn" and
    "list_ex (\<lambda>bb. in_band flim_bioPh bb \<and> in_bin bb (fn ! i0)) ?pairs"
    by (auto simp: band_rows_def)
  then obtain bb0 where bb0: "bb0 \<in> set ?pairs" "in_band flim_bioPh bb0" "in_bin bb0 (fn ! i0)"
    by (auto simp: list_ex_iff)
  then have ne: "?pairs \<noteq> []" by auto
  have ms: "is_pos ?ms" using occupancy_pos[OF ne assms(8)] .
  have occ: "list_ex (in_bin bb) fn" if "bb \<in> set ?pairs" for bb
    using assms(8) that by (simp add: list_all_iff)
  have Eb: "energy_per_freqbin (A2 ?P) fn flim_bioPh st =
      Inr (fsum (concat (map (bin_row ?P fn ?ms) (filter (in_band flim_bioPh) ?pairs))))"
    by (rule energy_matrix[OF lP assms(3,7,6) ne])
  have Ea: "energy_per_freqbin (A2 ?P) fn flim_antroPh st =
      Inr (fsum (concat (map (bin_row ?P fn ?ms) (filter (in_band flim_antroPh) ?pairs))))"
    by (rule energy_matrix[OF lP assms(3,7,6) ne])
  \<comment> \<open>the anthropophony is zero\<close>
  have za: "list_all (\<lambda>v. v = Fin 0) (bin_row ?P fn ?ms bb)"
    if bb: "bb \<in> set ?pairs" "in_band flim_antroPh bb" for bb
  proof (rule bin_row_zero[OF rP lP occ[OF bb(1)] _ ms])
    fix i assume i: "i < length fn" "in_bin bb (fn ! i)"
    with bb have "i \<in> set (band_rows fn st flim_antroPh)"
      by (auto simp: band_rows_def list_ex_iff)
    with assms(9) have "list_all (\<lambda>v. v = Fin 0) (rows ! i)" by (simp add: list_all_iff)
    then show "list_all (\<lambda>v. v = Fin 0) (?P ! i)"
      using i(1) assms(2) by (auto simp: list_all_iff)
  qed
  then have "list_all (\<lambda>v. v = Fin 0)
      (concat (map (bin_row ?P fn ?ms) (filter (in_band flim_antroPh) ?pairs)))"
    by (auto simp: list_all_iff)
  from fsum_all_zero[OF this] Ea
  have anthro: "energy_per_freqbin (A2 ?P) fn flim_antroPh st = Inr (Fin 0)" by simp
  \<comment> \<open>the biophony is strictly positive\<close>
  have nb: "list_all is_nonneg
      (concat (map (bin_row ?P fn ?ms) (filter (in_band flim_bioPh) ?pairs)))"
    using bin_row_nonneg[OF rP lP occ nnP ms] by (auto simp: list_all_iff)
  from i0(2) obtain v where v: "v \<in> set (rows ! i0)" "v \<noteq> Fin 0" by (auto simp: list_ex_iff)
  then obtain t where t: "t < length (rows ! i0)" "rows ! i0 ! t = v"
    by (auto simp: in_set_conv_nth)
  have lt: "length (rows ! i0) = ncols rows"
    using rect_nth[OF assms(1)] i0n assms(2) by simp
  have "rows ! i0 \<in> set rows" using i0n assms(2) by simp
  then have "v \<in> set (concat rows)" using v(1) by auto
  with assms(4) have "is_fin v" by (auto simp: list_all_iff)
  from sq_pos[OF this v(2)] have "is_pos (?P ! i0 ! t)"
    using t i0n assms(2) by simp
  from bin_row_pos[OF rP lP nnP ms i0n bb0(3) _ this] t(1) lt cP
  obtain w where w: "w \<in> set (bin_row ?P fn ?ms bb0)" "is_pos w" by auto
  have "w \<in> set (concat (map (bin_row ?P fn ?ms) (filter (in_band flim_bioPh) ?pairs)))"
    using w(1) bb0(1,2) by (cases bb0) auto
  from fsum_pos[OF nb this w(2)]
  have "is_pos (fsum (concat (map (bin_row ?P fn ?ms) (filter (in_band flim_bioPh) ?pairs))))" .
  from ndsi_values[OF this] obtain r where r: "0 < r"
    "fsum (concat (map (bin_row ?P fn ?ms) (filter (in_band flim_bioPh) ?pairs))) = Fin r"
    by blast
  have bio: "energy_per_freqbin (A2 ?P) fn flim_bioPh st = Inr (Fin r)"
    using Eb r(2) by simp
  have stp: "(case step of None \<Rightarrow> if length fn < 2 then Inl IndexError else Inr (fn ! 1 - fn ! 0)
           | Some st \<Rightarrow> Inr st) = Inr st"
    using assms(3,5) by (cases step) auto
  have "soundscapeIndex (A2 rows) fn flim_bioPh flim_antroPh step = Inr (Fin 1, PInf, Fin 0, Fin r)"
    unfolding soundscapeIndex_def stp
    using r(1) by (simp add: ebind_def bio anthro fsub_def Let_def)
  with r(1) show ?thesis by blast
qed

lemma soundscapeIndex_bio_only_example:
  "rect [[Fin 0], [Fin 0], [Fin 3], [Fin 1]] \<and>
   length [[Fin 0], [Fin 0], [Fin 3], [Fin 1]] = length [0, 1000, 2000, 3000 :: real] \<and>
   2 \<le> length [0, 1000, 2000, 3000 :: real] \<and>
   list_all is_fin (concat [[Fin 0], [Fin 0], [Fin 3], [Fin 1]]) \<and>
   (1000 :: real) = (case None of None \<Rightarrow> [0, 1000, 2000, 3000] ! 1 - [0, 1000, 2000, 3000] ! 0
                      | Some s \<Rightarrow> s) \<and>
   (0 :: real) < 1000 \<and>
   \<not> (1000 :: real) < [0, 1000, 2000, 3000] ! 1 - [0, 1000, 2000, 3000] ! 0 \<and>
   bin_pairs [0, 1000, 2000, 3000] 1000 = [(0, 1000), (1000, 2000), (2000, 3000)] \<and>
   band_rows [0, 1000, 2000, 3000] 1000 (0, 1000) = [0, 1] \<and>
   band_rows [0, 1000, 2000, 3000] 1000 (1000, 10000) = [1, 2] \<and>
   soundscapeIndex (A2 [[Fin 0], [Fin 0], [Fin 3], [Fin 1]]) [0, 1000, 2000, 3000]
       (1000, 10000) (0, 1000) None
     = Inr (Fin 1, PInf, Fin 0, Fin 9)"
proof -
  let ?rows = "[[Fin 0], [Fin 0], [Fin 3], [Fin 1]]"
  let ?fn = "[0, 1000, 2000, 3000 :: real]"
  have bp: "bin_pairs ?fn 1000 = [(0, 1000), (1000, 2000), (2000, 3000)]"
    by (simp add: bin_pairs_def arange_def upt_rec)
  have ba: "band_rows ?fn 1000 (0, 1000) = [0, 1]"
    by (simp add: band_rows_def bp in_band_def in_bin_def upt_rec)
  have bb: "band_rows ?fn 1000 (1000, 10000) = [1, 2]"
    by (simp add: band_rows_def bp in_band_def in_bin_def upt_rec)
  have h1: "rect ?rows" by (simp add: rect_def)
  have h2: "length ?rows = length ?fn" by simp
  have h3: "2 \<le> length ?fn" by simp
  have h4: "list_all is_fin (concat ?rows)" by simp
  have h5: "(1000 :: real) = (case None of None \<Rightarrow> ?fn ! 1 - ?fn ! 0 | Some s \<Rightarrow> s)" by simp
  have h6: "(0 :: real) < 1000" by simp
  have h7: "\<not> (1000 :: real) < ?fn ! 1 - ?fn ! 0" by simp
  have h8: "list_all (\<lambda>bb. list_ex (in_bin bb) ?fn) (bin_pairs ?fn 1000)"
    by (simp add: bp in_bin_def)
  have h9: "list_all (\<lambda>i. list_all (\<lambda>v. v = Fin 0) (?rows ! i)) (band_rows ?fn 1000 (0, 1000))"
    by (simp add: ba)
  have h10: "list_ex (\<lambda>i. list_ex (\<lambda>v. v \<noteq> Fin 0) (?rows ! i)) (band_rows ?fn 1000 (1000, 10000))"
    by (simp add: bb)
  have e: "soundscapeIndex (A2 ?rows) ?fn (1000, 10000) (0, 1000) None
     = Inr (Fin 1, PInf, Fin 0, Fin 9)"
    by (simp add: soundscapeIndex_def energy_per_freqbin_def intoBins_def arange_def ebind_def
        bin_mean_def mean_list_def select_def count_true_def fsum_def index_bw_def fsub_def upt_rec)
  show ?thesis
    using soundscapeIndex_bio_only [OF h1 h2 h3 h4 h5 h6 h7 h8 h9 h10] h1 h2 h3 h4 h5 h6 h7 bp ba bb e
    by blast
qed

subsection \<open>C5: spectral_entropy and its frequency limits\<close>

lemma fmin_list_some: "xs \<noteq> [] \<Longrightarrow> \<exists>m. fmin_list xs = Inr m"
  by (cases xs) simp_all

lemma fmax_list_some: "xs \<noteq> [] \<Longrightarrow> \<exists>m. fmax_list xs = Inr m"
  by (cases xs) simp_all

lemma linear_scale_A1: "xs \<noteq> [] \<Longrightarrow> \<exists>ys. linear_scale (A1 xs) a b = Inr (A1 ys) \<and> length ys = length xs"
proof -
  assume ne: "xs \<noteq> []"
  from fmax_list_some[OF ne] fmin_list_some[OF ne] obtain mx mn where
    "fmax_list xs = Inr mx" "fmin_list xs = Inr mn" by blast
  then show ?thesis by (simp add: linear_scale_def ebind_def Let_def)
qed

lemma entropy_A1_total:
  assumes "xs \<noteq> []"
  shows "\<exists>h. entropy (A1 xs) 0 = Inr (Some (A0 h))"
proof -
  from fmin_list_some[OF assms] obtain mn where mn: "fmin_list xs = Inr mn" by blast
  from linear_scale_A1[OF assms] obtain ys where
    ys: "linear_scale (A1 xs) (Fin 0) (Fin 1) = Inr (A1 ys)" "length ys = length xs" by blast
  show ?thesis
    using assms
    by (simp add: entropy_def ebind_def shape_at_def norm_axis_def mn ys pmf_of_def
        reduce_axis_def Let_def)
qed

lemma one_minus_entropy:
  assumes "xs \<noteq> []"
  shows "\<exists>e. ebind (entropy (A1 xs) 0) one_minus = Inr e"
proof -
  from entropy_A1_total[OF assms] obtain h where "entropy (A1 xs) 0 = Inr (Some (A0 h))" by blast
  then show ?thesis by (simp add: ebind_def one_minus_def)
qed

lemma fold_min_le: "fold min xs (a::real) \<le> a \<and> (\<forall>x\<in>set xs. fold min xs a \<le> x)"
proof (induction xs arbitrary: a)
  case Nil then show ?case by simp
next
  case (Cons x xs)
  from Cons.IH[of "min x a"] show ?case by (auto simp: min_def split: if_splits)
qed

lemma fold_max_ge: "a \<le> fold max xs (a::real) \<and> (\<forall>x\<in>set xs. x \<le> fold max xs a)"
proof (induction xs arbitrary: a)
  case Nil then show ?case by simp
next
  case (Cons x xs)
  from Cons.IH[of "max x a"] show ?case by (auto simp: max_def split: if_splits)
qed

lemma full_range:
  assumes "fn \<noteq> []"
  shows "\<exists>lo hi. list_min fn = Inr lo \<and> list_max fn = Inr hi \<and>
           list_all (\<lambda>f. lo \<le> f \<and> f \<le> hi) fn"
proof -
  obtain a as where fn: "fn = a # as" using assms by (cases fn) auto
  show ?thesis
    using fold_min_le[where xs=as and a=a] fold_max_ge[where xs=as and a=a]
    by (auto simp: fn list_all_iff)
qed

lemma index_bw_full:
  "list_all (\<lambda>f. lo \<le> f \<and> f \<le> hi) fn \<Longrightarrow> index_bw fn (lo, hi) = replicate (length fn) True"
  by (induction fn) (simp_all add: index_bw_def)

lemma select_all: "length xs = n \<Longrightarrow> select (replicate n True) xs = xs"
proof (induction xs arbitrary: n)
  case Nil then show ?case by (simp add: select_def)
next
  case (Cons x xs)
  then obtain k where "n = Suc k" "length xs = k" by (cases n) auto
  with Cons.IH[of k] show ?case by (simp add: select_def)
qed

lemma emap_total:
  assumes "\<And>x. x \<in> set xs \<Longrightarrow> \<exists>y. f x = Inr y \<and> P y"
  shows "\<exists>ys. emap f xs = Inr ys \<and> length ys = length xs \<and> list_all P ys"
  using assms
proof (induction xs)
  case Nil then show ?case by simp
next
  case (Cons x xs)
  then obtain y where y: "f x = Inr y" "P y" by auto
  from Cons obtain ys where ys: "emap f xs = Inr ys" "length ys = length xs" "list_all P ys"
    by auto
  show ?case by (simp add: y ys ebind_def)
qed

lemma fmax2_cases: "fmax2 a b = a \<or> fmax2 a b = b"
  by (auto simp: fmax2_def)

lemma foldl_fmax2_mem: "foldl fmax2 a xs \<in> set (a # xs)"
proof (induction xs arbitrary: a)
  case Nil then show ?case by simp
next
  case (Cons x xs)
  from Cons.IH[of "fmax2 a x"] fmax2_cases[of a x] show ?case by auto
qed

lemma takeWhile_neq_lt: "m \<in> set xs \<Longrightarrow> length (takeWhile (\<lambda>v. v \<noteq> m) xs) < length xs"
  by (induction xs) auto

lemma argmax_list_lt:
  assumes "xs \<noteq> []"
  shows "\<exists>i. argmax_list xs = Inr i \<and> i < length xs"
proof -
  obtain a as where xs: "xs = a # as" using assms by (cases xs) auto
  let ?m = "foldl fmax2 a as"
  have "?m \<in> set xs" unfolding xs by (rule foldl_fmax2_mem)
  then have "length (takeWhile (\<lambda>v. v \<noteq> ?m) xs) < length xs"
    by (rule takeWhile_neq_lt)
  then show ?thesis by (simp add: argmax_list_def xs ebind_def)
qed

lemma count_true_replicate: "count_true (replicate n True) = n"
  by (simp add: count_true_def)

lemma first_true_replicate: "0 < n \<Longrightarrow> first_true (replicate n True) = Inr 0"
  by (cases n) (simp_all add: first_true_def)

lemma histogram_total:
  assumes "0 < n" and "lo \<le> hi"
  shows "\<exists>h. histogram a n (lo, hi) = Inr h \<and> length h = n"
  using assms by (simp add: histogram_def Let_def)

lemma column_length: "l \<in> set (columns rows) \<Longrightarrow> length l = length rows"
  by (auto simp: columns_def)

lemma ebind_Inr: "ebind (Inr v) f = f v"
  by (simp add: ebind_def)

text \<open>
  C5, as stated: with a number for \<open>flim\<close>, \<open>spectral_entropy\<close> raises an
  InvalidArgument error. It raises nothing: it prints a warning and returns None.
\<close>

theorem spectral_entropy_scalar_flim_returns_None:
  "spectral_entropy (A2 [[Fin 1, Fin 2], [Fin 3, Fin 1]]) [0, 100] (FlimNumber 1000) = Inr None \<and>
   (\<forall>e. spectral_entropy (A2 [[Fin 1, Fin 2], [Fin 3, Fin 1]]) [0, 100] (FlimNumber 1000)
          \<noteq> Inl e)"
  by (simp add: spectral_entropy_def)

text \<open>
  C5, amended: whenever \<open>flim\<close> is a number, \<open>spectral_entropy\<close> ends the call by
  returning None, after a printed warning and without an exception, whatever \<open>X\<close> and
  \<open>fn\<close>. When \<open>flim\<close> is None it defaults to \<open>(fn.min(), fn.max())\<close>, the full range
  of \<open>fn\<close> (every frequency is selected), and the call succeeds, for a spectrogram \<open>X\<close>
  with one row per frequency, at least one frequency and at least one column.
\<close>

theorem spectral_entropy_flim:
  assumes "rect rows" and "length rows = length fn" and "fn \<noteq> []" and "0 < ncols rows"
  shows "spectral_entropy Y gn (FlimNumber c) = Inr None \<and>
         (\<exists>lo hi r. list_min fn = Inr lo \<and> list_max fn = Inr hi \<and>
            list_all (\<lambda>f. lo \<le> f \<and> f \<le> hi) fn \<and>
            spectral_entropy (A2 rows) fn FlimNone
              = spectral_entropy (A2 rows) fn (FlimTuple lo hi) \<and>
            spectral_entropy (A2 rows) fn FlimNone = Inr (Some r))"
proof -
  let ?n = "length fn"
  have n: "0 < ?n" using assms(3) by simp
  have rne: "rows \<noteq> []" using assms(2,3) by auto
  have scalar: "spectral_entropy Y gn (FlimNumber c) = Inr None"
    by (simp add: spectral_entropy_def)
  from full_range[OF assms(3)] obtain lo hi where
    r: "list_min fn = Inr lo" "list_max fn = Inr hi" "list_all (\<lambda>f. lo \<le> f \<and> f \<le> hi) fn"
    by blast
  have lohi: "lo \<le> hi"
  proof -
    from assms(3) obtain f where "f \<in> set fn" by (cases fn) auto
    with r(3) show ?thesis by (auto simp: list_all_iff)
  qed
  have dflt: "spectral_entropy (A2 rows) fn FlimNone
      = spectral_entropy (A2 rows) fn (FlimTuple lo hi)"
    by (simp add: spectral_entropy_def r ebind_def)
  have band: "index_bw fn (lo, hi) = replicate ?n True" by (rule index_bw_full[OF r(3)])
  have xb: "mask_rows (replicate ?n True) (A2 rows) = Inr (A2 rows)"
    using assms(2) by (simp add: mask_rows_def select_all)
  have mean: "reduce_axis mean_list (A2 rows) 1 = Inr (A1 (map mean_list rows))"
    by (simp add: reduce_axis_def norm_axis_def)
  have var: "reduce_axis var_list (A2 rows) 1 = Inr (A1 (map var_list rows))"
    by (simp add: reduce_axis_def norm_axis_def)
  from entropy_A1_total[of "map mean_list rows"] rne obtain h1 where
    h1: "entropy (A1 (map mean_list rows)) 0 = Inr (Some (A0 h1))" by auto
  from entropy_A1_total[of "map var_list rows"] rne obtain h2 where
    h2: "entropy (A1 (map var_list rows)) 0 = Inr (Some (A0 h2))" by auto
  have "\<exists>mx. emap fmax_list rows = Inr mx \<and> length mx = length rows \<and> list_all (\<lambda>_. True) mx"
  proof (rule emap_total)
    fix x assume "x \<in> set rows"
    then have "length x = ncols rows" using assms(1) by (simp add: rect_def list_all_iff)
    then have "x \<noteq> []" using assms(4) by auto
    from fmax_list_some[OF this] show "\<exists>y. fmax_list x = Inr y \<and> True" by simp
  qed
  then obtain mx where mx: "max_axis1 (A2 rows) = Inr mx" "length mx = length rows"
    by (auto simp: max_axis1_def)
  have "map2 fdiv (map var_list rows) mx \<noteq> []" using rne mx(2) by (cases rows; cases mx) auto
  from entropy_A1_total[OF this] obtain h3 where
    h3: "entropy (A1 (map2 fdiv (map var_list rows) mx)) 0 = Inr (Some (A0 h3))" by blast
  have ft: "first_true (replicate ?n True) = Inr 0" by (rule first_true_replicate[OF n])
  have "\<exists>am. emap argmax_list (columns rows) = Inr am \<and> length am = length (columns rows)
          \<and> list_all (\<lambda>i. i < length rows) am"
  proof (rule emap_total)
    fix l assume "l \<in> set (columns rows)"
    then have "length l = length rows" by (rule column_length)
    with rne have "l \<noteq> []" by auto
    from argmax_list_lt[OF this] \<open>length l = length rows\<close>
    show "\<exists>y. argmax_list l = Inr y \<and> y < length rows" by auto
  qed
  then obtain am where am: "emap argmax_list (columns rows) = Inr am"
    "list_all (\<lambda>i. i < length rows) am" by blast
  have "\<exists>im. emap (take_at fn) am = Inr im
          \<and> length im = length am \<and> list_all (\<lambda>_. True) im"
  proof (rule emap_total)
    fix i assume "i \<in> set am"
    with am(2) assms(2) have "i < ?n" by (simp add: list_all_iff)
    then show "\<exists>y. take_at fn i = Inr y \<and> True"
      by (simp add: take_at_def)
  qed
  then obtain im where im: "emap (take_at fn) am = Inr im"
    by blast
  from histogram_total[OF n lohi] obtain h where
    h: "histogram im ?n (lo, hi) = Inr h" "length h = ?n" by blast
  have "map (\<lambda>c. fdiv (Fin (real c)) (Fin (real (sum_list h)))) h \<noteq> []"
    using h(2) n by auto
  from entropy_A1_total[OF this] obtain h4 where
    h4: "entropy (A1 (map (\<lambda>c. fdiv (Fin (real c)) (Fin (real (sum_list h)))) h)) 0
           = Inr (Some (A0 h4))" by blast
  have "\<exists>r. spectral_entropy (A2 rows) fn (FlimTuple lo hi) = Inr (Some r)"
    unfolding spectral_entropy_def
    by (simp add: ebind_Inr Let_def band xb mean var h1 h2 mx h3 ft count_true_replicate
        am im h h4 one_minus_def del: fdiv.simps)
  with scalar r dflt show ?thesis by auto
qed

theorem spectral_entropy_flim_witness:
  "rect [[Fin 1, Fin 2], [Fin 3, Fin 1]] \<and>
   length [[Fin 1, Fin 2], [Fin 3, Fin 1]] = length [0, 100 :: real] \<and>
   [0, 100 :: real] \<noteq> [] \<and> 0 < ncols [[Fin 1, Fin 2], [Fin 3, Fin 1]] \<and>
   spectral_entropy (A1 [Fin 1]) [0] (FlimNumber 1000) = Inr None \<and>
   list_min [0, 100] = Inr 0 \<and> list_max [0, 100] = Inr 100 \<and>
   spectral_entropy (A2 [[Fin 1, Fin 2], [Fin 3, Fin 1]]) [0, 100] FlimNone
     = spectral_entropy (A2 [[Fin 1, Fin 2], [Fin 3, Fin 1]]) [0, 100] (FlimTuple 0 100) \<and>
   (\<exists>r. spectral_entropy (A2 [[Fin 1, Fin 2], [Fin 3, Fin 1]]) [0, 100] FlimNone = Inr (Some r))"
proof -
  let ?R = "[[Fin 1, Fin 2], [Fin 3, Fin 1]]"
  let ?F = "[0, 100 :: real]"
  have h1: "rect ?R" by (simp add: rect_def)
  have h2: "length ?R = length ?F" by simp
  have h3: "?F \<noteq> []" by simp
  have h4: "0 < ncols ?R" by simp
  have mn: "list_min ?F = Inr 0" by simp
  have mx: "list_max ?F = Inr 100" by simp
  from spectral_entropy_flim [OF h1 h2 h3 h4, of "A1 [Fin 1]" "[0]" 1000]
  obtain lo hi r where t: "spectral_entropy (A1 [Fin 1]) [0] (FlimNumber 1000) = Inr None"
    "list_min ?F = Inr lo" "list_max ?F = Inr hi"
    "spectral_entropy (A2 ?R) ?F FlimNone = spectral_entropy (A2 ?R) ?F (FlimTuple lo hi)"
    "spectral_entropy (A2 ?R) ?F FlimNone = Inr (Some r)" by blast
  from t(2,3) mn mx have "lo = 0" "hi = 100" by simp_all
  with t h1 h2 h3 h4 mn mx show ?thesis by blast
qed

end
